theory Spec2Isabelle
  imports Main "HOL-Library.Word"
begin

section \<open>The MPIR shim (src/src/mpirshim.c): data model\<close>

text \<open>
  The shim is a C program whose state is a set of global variables: the MPIR symbols a
  debugger reads, the flags of the event handlers, and four condition variables. The model
  keeps the globals in one record, passes it through every function, and writes every
  process exit, blocked wait and undefined behaviour as a value of the type \<open>outcome\<close>.

  Conventions of the model:
  \<^item> a \<open>char *\<close> is a \<open>string option\<close>, \<open>None\<close> being the null pointer;
  \<^item> C \<open>int\<close> counters and exit codes are \<open>int\<close>; the two conversions that can change
    a value (\<open>size_t\<close> to \<open>int\<close> for the table size, \<open>uint32_t\<close> to \<open>int\<close> for a rank)
    are written out on 32-bit words;
  \<^item> \<open>malloc\<close>, \<open>strdup\<close> and \<open>asprintf\<close> return fresh memory, except for a request
    that no allocator can serve (see \<open>malloc_proctable\<close>);
  \<^item> \<open>debug_print\<close> and the messages on stderr are output only and are left out;
  \<^item> the PMIx library is outside the repository: what its calls return, and which event
    callbacks its threads run while the driver thread waits or is about to call
    \<open>MPIR_Breakpoint\<close>, is an input (\<open>pmix_env\<close>).
\<close>

subsection \<open>MPIR symbols\<close>

record MPIR_PROCDESC =
  host_name :: "string option"
  executable_name :: "string option"
  pid :: int

definition MPIR_NULL :: int where "MPIR_NULL = 0"
definition MPIR_DEBUG_SPAWNED :: int where "MPIR_DEBUG_SPAWNED = 1"
definition MPIR_DEBUG_ABORTING :: int where "MPIR_DEBUG_ABORTING = 2"

definition STATUS_OK :: int where "STATUS_OK = 0"
definition STATUS_FAIL :: int where "STATUS_FAIL = 1"

subsection \<open>Types of the interfaces the shim is compiled against\<close>

text \<open>
  Modelled from the spec: the run-mode enumeration \<open>mpir_shim_mode_t\<close> is declared in
  mpirshim.h, which is not among the source files; the spec gives its four values
  (run mode: PROXY, NONPROXY, ATTACH, DYNAMIC).
\<close>
datatype mpir_shim_mode_t =
    MPIR_SHIM_DYNAMIC_PROXY_MODE
  | MPIR_SHIM_PROXY_MODE
  | MPIR_SHIM_NONPROXY_MODE
  | MPIR_SHIM_ATTACH_MODE

text \<open>
  PMIx status codes. The code only compares a status with the named constants below, so
  every other code is one constructor carrying its number.
\<close>
datatype pmix_status_t =
    PMIX_SUCCESS
  | PMIX_OPERATION_SUCCEEDED
  | PMIX_ERR_LOST_CONNECTION_TO_SERVER
  | PMIX_ERR_JOB_TERMINATED
  | PMIX_READY_FOR_DEBUG
  | PMIX_LAUNCH_COMPLETE
  | PMIX_STATUS_OTHER int

text \<open>The PMIx entry points the shim calls.\<close>
datatype pmix_api =
    PMIx_tool_init
  | PMIx_tool_finalize
  | PMIx_Register_event_handler
  | PMIx_Get
  | PMIx_Spawn
  | PMIx_tool_set_server
  | PMIx_Notify_event
  | PMIx_Query_info
  | PMIx_Argv_append
  | PMIx_Setenv

record pmix_proc_t =
  nspace :: string
  rank :: "32 word"

definition PMIX_RANK_WILDCARD :: "32 word" where
  "PMIX_RANK_WILDCARD = - 2"

text \<open>One element of the proctable query's data array (\<open>pmix_proc_info_t\<close>).\<close>
record pmix_proc_info_t =
  proc :: pmix_proc_t
  hostname :: "string option"
  pi_executable_name :: "string option"
  pi_pid :: int
  exit_code :: int

text \<open>
  An info item of an event notification. PMIx fixes the value type of each of its reserved
  keys, and the handlers read the union member that belongs to the key without looking at
  the type tag, so an item is modelled by its key together with that member.
\<close>
datatype pmix_info_t =
    Info_exit_code int
  | Info_job_term_status int
  | Info_event_affected_proc "pmix_proc_t option"
  | Info_nspace "string option"
  | Info_other

text \<open>A value returned by \<open>PMIx_Get\<close> or inside a query response, with its type tag.\<close>
datatype pmix_value_t =
    Val_string "string option"
  | Val_proc_rank "32 word"
  | Val_proc_info_array "pmix_proc_info_t list option"
  | Val_other_array
  | Val_other

subsection \<open>Observable effects and outcomes\<close>

datatype cond_id =
    launch_complete_cond
  | ready_for_debug_cond
  | launch_term_cond
  | registration_cond

text \<open>
  The trace records what the shim does to the outside: calls into PMIx, broadcasts on a
  condition variable, continuations of an event chain, every store to
  \<open>MPIR_debug_state\<close>, and what a debugger stopped in \<open>MPIR_Breakpoint\<close> reads
  (\<open>MPIR_debug_state\<close>, \<open>MPIR_proctable\<close>, \<open>MPIR_proctable_size\<close>). A slot of the
  table that was never written is \<open>None\<close>.
\<close>
datatype effect =
    Pmix_call pmix_api
  | Cond_broadcast cond_id
  | Cond_wait cond_id
  | Event_action_complete
  | Debug_state_write int
  | Breakpoint_hit int "MPIR_PROCDESC option list option" int
  | Proctable_freed

text \<open>
  How a function ends: it returns, the process exits (\<open>exit\<close> or \<open>_exit\<close>), the thread
  stays blocked in \<open>pthread_cond_wait\<close>, or the C behaviour is undefined (a write
  outside the table, a null pointer handed to a string function).
\<close>
datatype 'a outcome =
    Returns 'a
  | Exits int
  | Blocks
  | Undefined_behaviour

subsection \<open>The globals\<close>

record shim_state =
  MPIR_proctable :: "MPIR_PROCDESC option list option"
  MPIR_proctable_size :: int
  MPIR_debug_state :: int
  MPIR_debug_abort_string :: "string option"
  num_run_args :: int
  run_args :: "string list"
  pmix_prefix :: "string option"
  pmix_initialized :: int
  session_count :: int
  app_terminated :: int
  app_exit_code :: int
  launcher_terminated :: int
  launcher_exit_code :: int
  callback_reg_id :: nat
  callback_reg_status :: pmix_status_t
  default_cb_id :: "nat option"
  launch_complete_cb_id :: "nat option"
  launch_ready_cb_id :: "nat option"
  launcher_terminate_cb_id :: "nat option"
  app_terminate_cb_id :: "nat option"
  connect_pid :: int
  debug_active :: bool
  mpir_mode :: mpir_shim_mode_t
  launcher_proc :: pmix_proc_t
  application_proc :: pmix_proc_t
  launcher_namespace :: string
  launch_complete_flag :: int
  ready_for_debug_flag :: int
  launch_term_flag :: int
  registration_flag :: int
  atexit_registered :: bool
  trace :: "effect list"
  status_log :: "(string \<times> int \<times> bool) list"

text \<open>
  The last two fields are not C variables. \<open>atexit_registered\<close> is the C library's list
  of exit handlers (the shim registers one). \<open>status_log\<close> is a history variable: the
  driver appends the status each of its steps returned, with whether it tested that
  status (\<open>True\<close>) or discarded it (\<open>False\<close>, the \<open>(void)\<close> calls).
\<close>

text \<open>The static initialisers of the globals.\<close>
definition initial_state :: shim_state where
  "initial_state = \<lparr>
     MPIR_proctable = None, MPIR_proctable_size = 0, MPIR_debug_state = MPIR_NULL,
     MPIR_debug_abort_string = None, num_run_args = 0, run_args = [],
     pmix_prefix = None, pmix_initialized = 0, session_count = 0,
     app_terminated = 0, app_exit_code = 0, launcher_terminated = 0,
     launcher_exit_code = 0, callback_reg_id = 0, callback_reg_status = PMIX_SUCCESS,
     default_cb_id = None, launch_complete_cb_id = None, launch_ready_cb_id = None,
     launcher_terminate_cb_id = None, app_terminate_cb_id = None,
     connect_pid = 0, debug_active = False, mpir_mode = MPIR_SHIM_DYNAMIC_PROXY_MODE,
     launcher_proc = \<lparr>nspace = [], rank = 0\<rparr>,
     application_proc = \<lparr>nspace = [], rank = 0\<rparr>,
     launcher_namespace = [],
     launch_complete_flag = 1, ready_for_debug_flag = 1, launch_term_flag = 1,
     registration_flag = 1, atexit_registered = False, trace = [], status_log = [] \<rparr>"

definition emit :: "effect \<Rightarrow> shim_state \<Rightarrow> shim_state" where
  "emit e s = s\<lparr>trace := trace s @ [e]\<rparr>"

subsection \<open>The environment: PMIx and the C library\<close>

text \<open>
  An event is one callback that a PMIx thread runs: the completion of a registration, or
  one of the five event handlers with the arguments it receives (the status or the info
  items, and whether the continuation \<open>cbfunc\<close> is non-null).
\<close>
datatype event =
    Registration_complete pmix_status_t nat
  | Default_event pmix_status_t bool
  | Launcher_complete "pmix_info_t list" bool
  | Launcher_ready pmix_status_t bool
  | Launcher_terminate "pmix_info_t list" bool
  | Application_terminate "pmix_info_t list" bool

record pmix_env =
  pmix_rc :: "pmix_api \<Rightarrow> nat \<Rightarrow> pmix_status_t"
  get_value :: "nat \<Rightarrow> pmix_value_t option"
  spawn_nspace :: string
  query_data :: "nat \<Rightarrow> pmix_value_t list"
  sigaction_rc :: "nat \<Rightarrow> int"
  atexit_rc :: int
  environ :: "string list"
  events :: "nat \<Rightarrow> event list"
  interleaved :: "nat \<Rightarrow> event list"

text \<open>
  The k-th call of a PMIx entry point (counted per entry point, from 0) returns
  \<open>pmix_rc env api k\<close>; the k-th \<open>PMIx_Get\<close> yields the value
  \<open>get_value env k\<close> (\<open>None\<close> is a null pointer), the k-th \<open>PMIx_Query_info\<close>
  the values of the info items \<open>query_data env k\<close>, and \<open>PMIx_Spawn\<close> the
  namespace \<open>spawn_nspace env\<close>. \<open>sigaction_rc\<close> and \<open>atexit_rc\<close> are what the C
  library returns. \<open>events env k\<close> are the callbacks that PMIx threads run while the
  driver thread is in its k-th \<open>wait_for_condition\<close>, and \<open>interleaved env k\<close> those
  that they run while the driver thread is between its store to \<open>MPIR_debug_state\<close> and
  its k-th call of \<open>MPIR_Breakpoint\<close>. The calls, waits and stops made so far are counted
  in the trace.
\<close>
definition calls_so_far :: "pmix_api \<Rightarrow> shim_state \<Rightarrow> nat" where
  "calls_so_far api s = length (filter (\<lambda>e. e = Pmix_call api) (trace s))"

definition pmix_call :: "pmix_env \<Rightarrow> pmix_api \<Rightarrow> shim_state \<Rightarrow> pmix_status_t \<times> shim_state" where
  "pmix_call env api s = (pmix_rc env api (calls_so_far api s), emit (Pmix_call api) s)"

section \<open>Tool lifecycle\<close>

text \<open>
  \<^verbatim>\<open>
  if (0 < pmix_initialized) {
      rc = PMIx_tool_finalize();
      --pmix_initialized;
      if (PMIX_SUCCESS != rc) { ...; return STATUS_FAIL; }
  }
  return STATUS_OK;
  \<close>
\<close>
definition finalize_as_tool :: "pmix_env \<Rightarrow> shim_state \<Rightarrow> int \<times> shim_state" where
  "finalize_as_tool env s =
     (if 0 < pmix_initialized s then
        (let (rc, s1) = pmix_call env PMIx_tool_finalize s;
             s2 = s1\<lparr>pmix_initialized := pmix_initialized s1 - 1\<rparr>
         in if rc \<noteq> PMIX_SUCCESS then (STATUS_FAIL, s2) else (STATUS_OK, s2))
      else (STATUS_OK, s))"

text \<open>\<open>finalize_as_tool\<close> called K times in succession, the statuses discarded.\<close>
fun finalize_times :: "nat \<Rightarrow> pmix_env \<Rightarrow> shim_state \<Rightarrow> shim_state" where
  "finalize_times 0 env s = s"
| "finalize_times (Suc k) env s = finalize_times k env (snd (finalize_as_tool env s))"

section \<open>Mode and option resolver\<close>

text \<open>
  \<open>strrchr s c\<close>: the suffix of \<open>s\<close> that starts at the last occurrence of \<open>c\<close>, or
  \<open>None\<close> (a null pointer) when \<open>c\<close> does not occur.
\<close>
fun strrchr :: "string \<Rightarrow> char \<Rightarrow> string option" where
  "strrchr [] c = None"
| "strrchr (x # xs) c =
     (case strrchr xs c of
        Some r \<Rightarrow> Some r
      | None \<Rightarrow> if x = c then Some (x # xs) else None)"

text \<open>
  \<^verbatim>\<open>
  launcher_base = strrchr(argv[0], '/');
  if (NULL == launcher_base) launcher_base = argv[0];
  else launcher_base = launcher_base + 1;
  \<close>
\<close>
definition launcher_base :: "string \<Rightarrow> string" where
  "launcher_base argv0 =
     (case strrchr argv0 (CHR ''/'') of None \<Rightarrow> argv0 | Some r \<Rightarrow> tl r)"

text \<open>The basename in the spec's words: the part after the last \<open>/\<close>.\<close>
definition basename_spec :: "string \<Rightarrow> string" where
  "basename_spec p = rev (takeWhile (\<lambda>c. c \<noteq> CHR ''/'') (rev p))"

text \<open>
  \<open>argv\<close> is a null-terminated array of strings, modelled by the list of its strings:
  \<open>argv[0]\<close> of the empty list is the null pointer, and \<open>strrchr\<close> of a null pointer is
  undefined. \<open>debug_active = (bool)debug_\<close>.
\<close>
definition process_options ::
  "mpir_shim_mode_t \<Rightarrow> int \<Rightarrow> int \<Rightarrow> int \<Rightarrow> string list \<Rightarrow> shim_state \<Rightarrow> int outcome \<times> shim_state" where
  "process_options mpir_mode' pid' debug' argc argv s =
     (let finish = (\<lambda>s1. (Returns STATUS_OK,
            s1\<lparr>debug_active := (debug' \<noteq> 0), num_run_args := argc, run_args := argv\<rparr>))
      in if mpir_mode' = MPIR_SHIM_DYNAMIC_PROXY_MODE then
           (case argv of
              [] \<Rightarrow> (Undefined_behaviour, s)
            | argv0 # _ \<Rightarrow>
                if launcher_base argv0 = ''prun''
                then finish (s\<lparr>mpir_mode := MPIR_SHIM_NONPROXY_MODE\<rparr>)
                else finish (s\<lparr>mpir_mode := MPIR_SHIM_PROXY_MODE\<rparr>))
         else if mpir_mode' = MPIR_SHIM_ATTACH_MODE then
           (if 0 \<ge> pid' then (Returns STATUS_FAIL, s)
            else finish (s\<lparr>connect_pid := pid', mpir_mode := MPIR_SHIM_ATTACH_MODE\<rparr>))
         else finish s)"

section \<open>Condition variables\<close>

definition flag :: "cond_id \<Rightarrow> shim_state \<Rightarrow> int" where
  "flag c s = (case c of
       launch_complete_cond \<Rightarrow> launch_complete_flag s
     | ready_for_debug_cond \<Rightarrow> ready_for_debug_flag s
     | launch_term_cond \<Rightarrow> launch_term_flag s
     | registration_cond \<Rightarrow> registration_flag s)"

definition set_flag :: "cond_id \<Rightarrow> int \<Rightarrow> shim_state \<Rightarrow> shim_state" where
  "set_flag c v s = (case c of
       launch_complete_cond \<Rightarrow> s\<lparr>launch_complete_flag := v\<rparr>
     | ready_for_debug_cond \<Rightarrow> s\<lparr>ready_for_debug_flag := v\<rparr>
     | launch_term_cond \<Rightarrow> s\<lparr>launch_term_flag := v\<rparr>
     | registration_cond \<Rightarrow> s\<lparr>registration_flag := v\<rparr>)"

text \<open>\<open>post_condition\<close>: broadcast, then clear the flag (under the mutex).\<close>
definition post_condition :: "cond_id \<Rightarrow> shim_state \<Rightarrow> shim_state" where
  "post_condition c s = set_flag c 0 (emit (Cond_broadcast c) s)"

text \<open>One \<open>if (1 == cond.flag) { broadcast; cond.flag = 0; }\<close> of \<open>release_conditions\<close>.\<close>
definition release_one :: "cond_id \<Rightarrow> shim_state \<Rightarrow> shim_state" where
  "release_one c s = (if flag c s = 1 then set_flag c 0 (emit (Cond_broadcast c) s) else s)"

definition release_conditions :: "shim_state \<Rightarrow> shim_state" where
  "release_conditions s =
     release_one launch_term_cond
       (release_one launch_complete_cond
         (release_one ready_for_debug_cond
           (release_one registration_cond s)))"

section \<open>Process exit\<close>

text \<open>
  \<open>exit_handler\<close>, the \<open>atexit\<close> function:
  \<^verbatim>\<open>
  finalize_as_tool();
  if (NULL != MPIR_proctable) {
      for (i = 0; i < MPIR_proctable_size; i++) {
          free(MPIR_proctable[i].host_name);
          free(MPIR_proctable[i].executable_name);
      }
      free(MPIR_proctable);
  }
  \<close>
  The two pointers of a slot that was never written are whatever \<open>malloc\<close> left there,
  and a slot beyond the table is not the shim's to read: \<open>free\<close> of either is undefined.
  A written slot holds results of \<open>strdup\<close> (or null pointers), which \<open>free\<close> accepts.
\<close>
definition exit_handler :: "pmix_env \<Rightarrow> shim_state \<Rightarrow> unit outcome \<times> shim_state" where
  "exit_handler env s =
     (let s1 = snd (finalize_as_tool env s)
      in case MPIR_proctable s1 of
           None \<Rightarrow> (Returns (), s1)
         | Some table \<Rightarrow>
             if MPIR_proctable_size s1 \<le> int (length table) \<and>
                list_all (\<lambda>slot. slot \<noteq> None) (take (nat (MPIR_proctable_size s1)) table)
             then (Returns (), emit Proctable_freed s1)
             else (Undefined_behaviour, s1))"

text \<open>
  \<open>exit(n)\<close> runs the registered exit handler and ends the process with status \<open>n\<close>;
  \<open>_exit(n)\<close> ends it at once.
\<close>
definition c_exit :: "pmix_env \<Rightarrow> int \<Rightarrow> shim_state \<Rightarrow> 'a outcome \<times> shim_state" where
  "c_exit env n s =
     (if atexit_registered s then
        (case exit_handler env s of
           (Returns u, s1) \<Rightarrow> (Exits n, s1)
         | (Exits k, s1) \<Rightarrow> (Exits k, s1)
         | (Blocks, s1) \<Rightarrow> (Blocks, s1)
         | (Undefined_behaviour, s1) \<Rightarrow> (Undefined_behaviour, s1))
      else (Exits n, s))"

definition c__exit :: "int \<Rightarrow> shim_state \<Rightarrow> 'a outcome \<times> shim_state" where
  "c__exit n s = (Exits n, s)"

text \<open>\<open>pmix_fatal_error\<close>: print, \<open>finalize_as_tool()\<close>, \<open>exit(1)\<close>.\<close>
definition pmix_fatal_error :: "pmix_env \<Rightarrow> shim_state \<Rightarrow> 'a outcome \<times> shim_state" where
  "pmix_fatal_error env s = c_exit env 1 (snd (finalize_as_tool env s))"

text \<open>\<open>signal_handler\<close>: \<open>finalize_as_tool()\<close>, \<open>exit(1)\<close>.\<close>
definition signal_handler :: "pmix_env \<Rightarrow> shim_state \<Rightarrow> unit outcome \<times> shim_state" where
  "signal_handler env s = c_exit env 1 (snd (finalize_as_tool env s))"

section \<open>Event handlers\<close>

text \<open>The decimal text that \<open>%d\<close> prints.\<close>
definition digit_char :: "nat \<Rightarrow> char" where
  "digit_char d = ''0123456789'' ! d"

fun string_of_nat :: "nat \<Rightarrow> string" where
  "string_of_nat n =
     (if n < 10 then [digit_char n] else string_of_nat (n div 10) @ [digit_char (n mod 10)])"

definition string_of_int :: "int \<Rightarrow> string" where
  "string_of_int i = (if i < 0 then CHR ''-'' # string_of_nat (nat (- i)) else string_of_nat (nat i))"

text \<open>\<open>if (NULL != cbfunc) cbfunc(PMIX_EVENT_ACTION_COMPLETE, NULL, 0, NULL, NULL, cbdata);\<close>\<close>
definition call_cbfunc :: "bool \<Rightarrow> shim_state \<Rightarrow> shim_state" where
  "call_cbfunc cbfunc s = (if cbfunc then emit Event_action_complete s else s)"

definition registration_complete_handler :: "pmix_status_t \<Rightarrow> nat \<Rightarrow> shim_state \<Rightarrow> shim_state" where
  "registration_complete_handler status handler_ref s =
     post_condition registration_cond
       (s\<lparr>callback_reg_status := status, callback_reg_id := handler_ref\<rparr>)"

text \<open>
  \<^verbatim>\<open>
  if (PMIX_ERR_LOST_CONNECTION_TO_SERVER == status) {
      if (1 == session_count) { release_conditions(); _exit(1); }
      session_count = session_count - 1;
  }
  if (NULL != cbfunc) cbfunc(PMIX_EVENT_ACTION_COMPLETE, ...);
  \<close>
\<close>
definition default_event_handler ::
  "pmix_status_t \<Rightarrow> bool \<Rightarrow> shim_state \<Rightarrow> unit outcome \<times> shim_state" where
  "default_event_handler status cbfunc s =
     (if status = PMIX_ERR_LOST_CONNECTION_TO_SERVER then
        (if session_count s = 1 then c__exit 1 (release_conditions s)
         else (Returns (), call_cbfunc cbfunc (s\<lparr>session_count := session_count s - 1\<rparr>)))
      else (Returns (), call_cbfunc cbfunc s))"

text \<open>The store \<open>MPIR_debug_state = v\<close>, recorded in the trace.\<close>
definition set_debug_state :: "int \<Rightarrow> shim_state \<Rightarrow> shim_state" where
  "set_debug_state v s = emit (Debug_state_write v) (s\<lparr>MPIR_debug_state := v\<rparr>)"

text \<open>
  The body shared by the two branches of the terminate handlers' loops, after the exit
  code was stored:
  \<^verbatim>\<open>
  if (code != 0) {
      MPIR_debug_state = MPIR_DEBUG_ABORTING;
      if (NULL == MPIR_debug_abort_string)
          asprintf(&MPIR_debug_abort_string, "The ... exited with return code %d", code);
  }
  \<close>
\<close>
definition note_abort :: "string \<Rightarrow> int \<Rightarrow> shim_state \<Rightarrow> shim_state" where
  "note_abort who code s =
     (if code \<noteq> 0 then
        (let s1 = set_debug_state MPIR_DEBUG_ABORTING s
         in if MPIR_debug_abort_string s1 = None
            then s1\<lparr>MPIR_debug_abort_string :=
                   Some (''The '' @ who @ '' exited with return code '' @ string_of_int code)\<rparr>
            else s1)
      else s)"

text \<open>One iteration of the loop over the info items of \<open>launcher_terminate_handler\<close>.\<close>
fun launcher_terminate_item :: "pmix_info_t \<Rightarrow> shim_state \<Rightarrow> shim_state" where
  "launcher_terminate_item (Info_exit_code v) s =
     note_abort ''launcher'' v (s\<lparr>launcher_exit_code := v\<rparr>)"
| "launcher_terminate_item (Info_job_term_status v) s =
     note_abort ''launcher'' v (s\<lparr>launcher_exit_code := v\<rparr>)"
| "launcher_terminate_item _ s = s"

definition launcher_terminate_handler ::
  "pmix_info_t list \<Rightarrow> bool \<Rightarrow> shim_state \<Rightarrow> shim_state" where
  "launcher_terminate_handler info cbfunc s =
     (let s1 = fold launcher_terminate_item info s;
          s2 = s1\<lparr>launcher_terminated := 1\<rparr>;
          s3 = post_condition launch_term_cond s2;
          s4 = release_conditions s3
      in call_cbfunc cbfunc s4)"

fun application_terminate_item :: "pmix_info_t \<Rightarrow> shim_state \<Rightarrow> shim_state" where
  "application_terminate_item (Info_exit_code v) s =
     note_abort ''application'' v (s\<lparr>app_exit_code := v\<rparr>)"
| "application_terminate_item (Info_job_term_status v) s =
     note_abort ''application'' v (s\<lparr>app_exit_code := v\<rparr>)"
| "application_terminate_item _ s = s"

definition application_terminate_handler ::
  "pmix_info_t list \<Rightarrow> bool \<Rightarrow> shim_state \<Rightarrow> shim_state" where
  "application_terminate_handler info cbfunc s =
     (let s1 = fold application_terminate_item info s;
          s2 = s1\<lparr>app_terminated := 1, launcher_terminated := 2\<rparr>;
          s3 = post_condition launch_term_cond s2;
          s4 = release_conditions s3
      in call_cbfunc cbfunc s4)"

definition launcher_ready_handler :: "pmix_status_t \<Rightarrow> bool \<Rightarrow> shim_state \<Rightarrow> shim_state" where
  "launcher_ready_handler status cbfunc s =
     call_cbfunc cbfunc (post_condition ready_for_debug_cond (s\<lparr>callback_reg_status := status\<rparr>))"

text \<open>
  \<open>PMIX_MAX_NSLEN\<close> of the PMIx headers. \<open>PMIX_LOAD_NSPACE(a, b)\<close> clears \<open>a\<close> and
  copies at most \<open>PMIX_MAX_NSLEN\<close> characters of \<open>b\<close> when \<open>b\<close> is not null.
\<close>
definition PMIX_MAX_NSLEN :: nat where "PMIX_MAX_NSLEN = 255"

definition PMIX_LOAD_NSPACE :: "string option \<Rightarrow> string" where
  "PMIX_LOAD_NSPACE b = (case b of None \<Rightarrow> [] | Some str \<Rightarrow> take PMIX_MAX_NSLEN str)"

definition PMIX_PROC_LOAD :: "string option \<Rightarrow> 32 word \<Rightarrow> pmix_proc_t" where
  "PMIX_PROC_LOAD ns r = \<lparr>nspace = PMIX_LOAD_NSPACE ns, rank = r\<rparr>"

text \<open>
  The loop of \<open>launcher_complete_handler\<close>: every \<open>PMIX_NSPACE\<close> item is copied with
  \<open>strcpy\<close> into a buffer of \<open>PMIX_MAX_NSLEN + 1\<close> bytes, the last one wins. A null
  string or one that does not fit is undefined behaviour (\<open>None\<close>).
\<close>
fun find_application_namespace :: "pmix_info_t list \<Rightarrow> string \<Rightarrow> string option" where
  "find_application_namespace [] ns = Some ns"
| "find_application_namespace (Info_nspace None # info) ns = None"
| "find_application_namespace (Info_nspace (Some str) # info) ns =
     (if length str \<le> PMIX_MAX_NSLEN then find_application_namespace info str else None)"
| "find_application_namespace (_ # info) ns = find_application_namespace info ns"

definition launcher_complete_handler ::
  "pmix_env \<Rightarrow> pmix_info_t list \<Rightarrow> bool \<Rightarrow> shim_state \<Rightarrow> unit outcome \<times> shim_state" where
  "launcher_complete_handler env info cbfunc s =
     (case find_application_namespace info [] of
        None \<Rightarrow> (Undefined_behaviour, s)
      | Some application_namespace \<Rightarrow>
          if application_namespace = [] then pmix_fatal_error env s
          else
            (let s1 = s\<lparr>application_proc :=
                       PMIX_PROC_LOAD (Some application_namespace) PMIX_RANK_WILDCARD\<rparr>;
                 s2 = post_condition launch_complete_cond s1
             in (Returns (), call_cbfunc cbfunc s2)))"

text \<open>One callback, run by a PMIx thread.\<close>
fun handle_event :: "pmix_env \<Rightarrow> event \<Rightarrow> shim_state \<Rightarrow> unit outcome \<times> shim_state" where
  "handle_event env (Registration_complete status handler_ref) s =
     (Returns (), registration_complete_handler status handler_ref s)"
| "handle_event env (Default_event status cbfunc) s = default_event_handler status cbfunc s"
| "handle_event env (Launcher_complete info cbfunc) s = launcher_complete_handler env info cbfunc s"
| "handle_event env (Launcher_ready status cbfunc) s =
     (Returns (), launcher_ready_handler status cbfunc s)"
| "handle_event env (Launcher_terminate info cbfunc) s =
     (Returns (), launcher_terminate_handler info cbfunc s)"
| "handle_event env (Application_terminate info cbfunc) s =
     (Returns (), application_terminate_handler info cbfunc s)"

text \<open>Callbacks run one after the other, until one of them ends the process.\<close>
fun handle_events :: "pmix_env \<Rightarrow> event list \<Rightarrow> shim_state \<Rightarrow> unit outcome \<times> shim_state" where
  "handle_events env [] s = (Returns (), s)"
| "handle_events env (e # es) s =
     (case handle_event env e s of
        (Returns u, s1) \<Rightarrow> handle_events env es s1
      | (Exits n, s1) \<Rightarrow> (Exits n, s1)
      | (Blocks, s1) \<Rightarrow> (Blocks, s1)
      | (Undefined_behaviour, s1) \<Rightarrow> (Undefined_behaviour, s1))"

text \<open>
  \<^verbatim>\<open>
  pthread_mutex_lock(&wait_cond->mutex);
  while ((1 == wait_cond->flag) && (0 == launcher_terminated))
      pthread_cond_wait(&wait_cond->condition, &wait_cond->mutex);
  wait_cond->flag = 1;
  pthread_mutex_unlock(&wait_cond->mutex);
  \<close>
  The handlers run on PMIx's threads, concurrently with the driver thread. The model
  lets them run at two kinds of points of the driver thread: while it waits here, and
  between its store to \<open>MPIR_debug_state\<close> and its call of \<open>MPIR_Breakpoint\<close>
  (\<open>pmix_proc_table_to_mpir_among\<close> below), where a debugger reads what the handlers
  write. A callback that arrives between two waits is taken to run in one of them. Here
  the model runs the callbacks that the environment delivers during this wait, then tests
  the loop condition: when it still holds, no further callback will change it and the
  thread stays blocked.
\<close>
definition waits_so_far :: "shim_state \<Rightarrow> nat" where
  "waits_so_far s =
     length (filter (\<lambda>e. case e of Cond_wait c \<Rightarrow> True | _ \<Rightarrow> False) (trace s))"

definition wait_for_condition ::
  "pmix_env \<Rightarrow> cond_id \<Rightarrow> shim_state \<Rightarrow> unit outcome \<times> shim_state" where
  "wait_for_condition env wait_cond s =
     (case handle_events env (events env (waits_so_far s)) (emit (Cond_wait wait_cond) s) of
        (Returns u, s1) \<Rightarrow>
          if flag wait_cond s1 = 1 \<and> launcher_terminated s1 = 0 then (Blocks, s1)
          else (Returns (), set_flag wait_cond 1 s1)
      | (Exits n, s1) \<Rightarrow> (Exits n, s1)
      | (Blocks, s1) \<Rightarrow> (Blocks, s1)
      | (Undefined_behaviour, s1) \<Rightarrow> (Undefined_behaviour, s1))"

section \<open>Sequencing\<close>

text \<open>
  \<open>and_then m f\<close> runs \<open>m\<close> and, when it returns, \<open>f\<close> on its result; an exit, a
  blocked wait or undefined behaviour ends the run.
\<close>
definition and_then ::
  "(shim_state \<Rightarrow> 'a outcome \<times> shim_state) \<Rightarrow> ('a \<Rightarrow> shim_state \<Rightarrow> 'b outcome \<times> shim_state) \<Rightarrow>
   shim_state \<Rightarrow> 'b outcome \<times> shim_state" where
  "and_then m f s =
     (case m s of
        (Returns a, s1) \<Rightarrow> f a s1
      | (Exits n, s1) \<Rightarrow> (Exits n, s1)
      | (Blocks, s1) \<Rightarrow> (Blocks, s1)
      | (Undefined_behaviour, s1) \<Rightarrow> (Undefined_behaviour, s1))"

definition returning :: "(shim_state \<Rightarrow> 'a \<times> shim_state) \<Rightarrow> shim_state \<Rightarrow> 'a outcome \<times> shim_state" where
  "returning f s = (Returns (fst (f s)), snd (f s))"

definition log_status :: "string \<Rightarrow> int \<Rightarrow> bool \<Rightarrow> shim_state \<Rightarrow> shim_state" where
  "log_status name st tested s = s\<lparr>status_log := status_log s @ [(name, st, tested)]\<rparr>"

text \<open>\<open>if (STATUS_FAIL == f()) return STATUS_FAIL;\<close> followed by the rest of the driver.\<close>
definition if_fail_return ::
  "string \<Rightarrow> (shim_state \<Rightarrow> int outcome \<times> shim_state) \<Rightarrow> (shim_state \<Rightarrow> int outcome \<times> shim_state) \<Rightarrow>
   shim_state \<Rightarrow> int outcome \<times> shim_state" where
  "if_fail_return name f rest =
     and_then f (\<lambda>st s. if STATUS_FAIL = st then (Returns STATUS_FAIL, log_status name st True s)
                        else rest (log_status name st True s))"

text \<open>\<open>if (STATUS_OK != f()) return STATUS_FAIL;\<close> followed by the rest of the driver.\<close>
definition unless_ok_return ::
  "string \<Rightarrow> (shim_state \<Rightarrow> int outcome \<times> shim_state) \<Rightarrow> (shim_state \<Rightarrow> int outcome \<times> shim_state) \<Rightarrow>
   shim_state \<Rightarrow> int outcome \<times> shim_state" where
  "unless_ok_return name f rest =
     and_then f (\<lambda>st s. if STATUS_OK \<noteq> st then (Returns STATUS_FAIL, log_status name st True s)
                        else rest (log_status name st True s))"

text \<open>\<open>(void) f();\<close> followed by the rest of the driver.\<close>
definition discard_status ::
  "string \<Rightarrow> (shim_state \<Rightarrow> int outcome \<times> shim_state) \<Rightarrow> (shim_state \<Rightarrow> 'b outcome \<times> shim_state) \<Rightarrow>
   shim_state \<Rightarrow> 'b outcome \<times> shim_state" where
  "discard_status name f rest = and_then f (\<lambda>st s. rest (log_status name st False s))"

section \<open>Proctable\<close>

text \<open>
  \<open>malloc(MPIR_proctable_size * sizeof(MPIR_PROCDESC))\<close>. A negative size converts to a
  \<open>size_t\<close> of at least \<open>2^64 - 2^31\<close>, and the product with the 24 bytes of a descriptor
  stays above \<open>2^64 - 24 * 2^31\<close>: more than any allocator serves, so the pointer is
  null. Otherwise the allocation is taken to succeed (for a size of 0 with a non-null
  pointer, as glibc gives): the table has that many slots, none of them written.
\<close>
definition malloc_proctable :: "int \<Rightarrow> MPIR_PROCDESC option list option" where
  "malloc_proctable table_size =
     (if table_size < 0 then None else Some (replicate (nat table_size) None))"

text \<open>
  One iteration of the loop:
  \<^verbatim>\<open>
  rank = proc_info[i].proc.rank;
  MPIR_proctable[rank].pid = proc_info[i].pid;
  MPIR_proctable[rank].host_name = strdup(proc_info[i].hostname);
  MPIR_proctable[rank].executable_name = strdup(proc_info[i].executable_name);
  \<close>
  \<open>rank\<close> is an \<open>int\<close> and \<open>proc.rank\<close> a \<open>uint32_t\<close>. There is no bounds check: a rank
  outside the table is a write outside the allocation, and \<open>strdup\<close> of a null pointer
  is undefined too (\<open>None\<close>).
\<close>
definition store_procdesc ::
  "pmix_proc_info_t \<Rightarrow> MPIR_PROCDESC option list \<Rightarrow> MPIR_PROCDESC option list option" where
  "store_procdesc p table =
     (let rank = sint (rank (proc p))
      in if rank < 0 \<or> int (length table) \<le> rank then None
         else (case (hostname p, pi_executable_name p) of
                 (Some h, Some e) \<Rightarrow>
                   Some (table[nat rank :=
                           Some \<lparr>host_name = Some h, executable_name = Some e, pid = pi_pid p\<rparr>])
               | _ \<Rightarrow> None))"

fun proctable_loop ::
  "pmix_proc_info_t list \<Rightarrow> MPIR_PROCDESC option list \<Rightarrow> MPIR_PROCDESC option list option" where
  "proctable_loop [] table = Some table"
| "proctable_loop (p # ps) table =
     (case store_procdesc p table of
        None \<Rightarrow> None
      | Some table1 \<Rightarrow> proctable_loop ps table1)"

text \<open>
  \<^verbatim>\<open>
  MPIR_proctable_size = response_array->size;
  MPIR_proctable = malloc(MPIR_proctable_size * sizeof(MPIR_PROCDESC));
  for (i = 0; i < MPIR_proctable_size; i++) { ... }
  \<close>
  \<open>response_array->size\<close> is a \<open>size_t\<close>, \<open>MPIR_proctable_size\<close> an \<open>int\<close>: the
  conversion keeps the low 32 bits, read as two's complement. The loop visits the first
  \<open>MPIR_proctable_size\<close> records. The result is the table, or \<open>None\<close> when the loop runs
  into undefined behaviour.
\<close>
definition proctable_size_of :: "pmix_proc_info_t list \<Rightarrow> int" where
  "proctable_size_of proc_info = sint (word_of_nat (length proc_info) :: 32 word)"

definition materialise_proctable ::
  "pmix_proc_info_t list \<Rightarrow> MPIR_PROCDESC option list option option" where
  "materialise_proctable proc_info =
     (let table_size = proctable_size_of proc_info
      in case malloc_proctable table_size of
           None \<Rightarrow> Some None
         | Some table \<Rightarrow>
             (case proctable_loop (take (nat table_size) proc_info) table of
                None \<Rightarrow> None
              | Some table1 \<Rightarrow> Some (Some table1)))"

text \<open>
  \<open>MPIR_Breakpoint\<close> is an empty function; a debugger stopped in it reads the three MPIR
  variables.
\<close>
definition MPIR_Breakpoint :: "shim_state \<Rightarrow> shim_state" where
  "MPIR_Breakpoint s =
     emit (Breakpoint_hit (MPIR_debug_state s) (MPIR_proctable s) (MPIR_proctable_size s)) s"

text \<open>
  The part of \<open>pmix_proc_table_to_mpir\<close> after the checks of the response: build the
  table, set the debug state, call the breakpoint, return \<open>PMIX_SUCCESS\<close> (0).
\<close>
definition build_proctable ::
  "pmix_proc_info_t list \<Rightarrow> shim_state \<Rightarrow> int outcome \<times> shim_state" where
  "build_proctable proc_info s =
     (let s1 = s\<lparr>MPIR_proctable_size := proctable_size_of proc_info\<rparr>
      in case materialise_proctable proc_info of
           None \<Rightarrow> (Undefined_behaviour, s1)
         | Some table \<Rightarrow>
             (let s2 = s1\<lparr>MPIR_proctable := table\<rparr>;
                  s3 = set_debug_state MPIR_DEBUG_SPAWNED s2
              in (Returns 0, MPIR_Breakpoint s3)))"

text \<open>
  \<open>pmix_proc_table_to_mpir\<close>: the query (a failure returns STATUS_FAIL), the checks of
  the response (a malformed response is fatal), then the table. The response is the list of
  the values of its info items; the first one has to be a data array of
  \<open>pmix_proc_info_t\<close> with a non-null array.
\<close>
definition pmix_proc_table_to_mpir :: "pmix_env \<Rightarrow> shim_state \<Rightarrow> int outcome \<times> shim_state" where
  "pmix_proc_table_to_mpir env s =
     (let (rc0, s0) = pmix_call env PMIx_Argv_append s
      in if rc0 \<noteq> PMIX_SUCCESS then (Returns STATUS_FAIL, s0)
         else
           (let k = calls_so_far PMIx_Query_info s0;
                (rc, s1) = pmix_call env PMIx_Query_info s0
            in if rc \<noteq> PMIX_SUCCESS then (Returns STATUS_FAIL, s1)
               else (case query_data env k of
                       Val_proc_info_array (Some proc_info) # _ \<Rightarrow> build_proctable proc_info s1
                     | _ \<Rightarrow> pmix_fatal_error env s1)))"

text \<open>
  The same function among the other threads. Nothing orders the handlers, which run on
  PMIx threads once they are registered, against the lines of \<open>pmix_proc_table_to_mpir\<close>:
  between the store \<open>MPIR_debug_state = MPIR_DEBUG_SPAWNED\<close> (line 1784) and the call of
  \<open>MPIR_Breakpoint\<close> (line 1793) the callbacks \<open>others\<close> run. One of them may end
  the process, and then the breakpoint is not reached. With no callback there, this is
  \<open>pmix_proc_table_to_mpir\<close>.
\<close>
definition build_proctable_among ::
  "(shim_state \<Rightarrow> unit outcome \<times> shim_state) \<Rightarrow> pmix_proc_info_t list \<Rightarrow> shim_state \<Rightarrow>
   int outcome \<times> shim_state" where
  "build_proctable_among others proc_info s =
     (let s1 = s\<lparr>MPIR_proctable_size := proctable_size_of proc_info\<rparr>
      in case materialise_proctable proc_info of
           None \<Rightarrow> (Undefined_behaviour, s1)
         | Some table \<Rightarrow>
             (let s2 = s1\<lparr>MPIR_proctable := table\<rparr>;
                  s3 = set_debug_state MPIR_DEBUG_SPAWNED s2
              in and_then others (\<lambda>u s4. (Returns 0, MPIR_Breakpoint s4)) s3))"

definition pmix_proc_table_to_mpir_among ::
  "(shim_state \<Rightarrow> unit outcome \<times> shim_state) \<Rightarrow> pmix_env \<Rightarrow> shim_state \<Rightarrow>
   int outcome \<times> shim_state" where
  "pmix_proc_table_to_mpir_among others env s =
     (let (rc0, s0) = pmix_call env PMIx_Argv_append s
      in if rc0 \<noteq> PMIX_SUCCESS then (Returns STATUS_FAIL, s0)
         else
           (let k = calls_so_far PMIx_Query_info s0;
                (rc, s1) = pmix_call env PMIx_Query_info s0
            in if rc \<noteq> PMIX_SUCCESS then (Returns STATUS_FAIL, s1)
               else (case query_data env k of
                       Val_proc_info_array (Some proc_info) # _ \<Rightarrow>
                         build_proctable_among others proc_info s1
                     | _ \<Rightarrow> pmix_fatal_error env s1)))"

text \<open>
  The callbacks that the environment runs between the store and the stop: those of the
  k-th stop, k the number of stops so far.
\<close>
definition stops_so_far :: "shim_state \<Rightarrow> nat" where
  "stops_so_far s =
     length (filter (\<lambda>e. case e of Breakpoint_hit st tab n \<Rightarrow> True | _ \<Rightarrow> False) (trace s))"

definition callbacks_before_stop :: "pmix_env \<Rightarrow> shim_state \<Rightarrow> unit outcome \<times> shim_state" where
  "callbacks_before_stop env s = handle_events env (interleaved env (stops_so_far s)) s"

section \<open>The steps of the driver\<close>

text \<open>Inside a step: \<open>if (PMIX_SUCCESS != rc) return STATUS_FAIL;\<close>, then the rest.\<close>
definition on_success ::
  "(shim_state \<Rightarrow> int outcome \<times> shim_state) \<Rightarrow> (shim_state \<Rightarrow> int outcome \<times> shim_state) \<Rightarrow>
   shim_state \<Rightarrow> int outcome \<times> shim_state" where
  "on_success f rest =
     and_then f (\<lambda>st s. if st \<noteq> STATUS_OK then (Returns STATUS_FAIL, s) else rest s)"

text \<open>A PMIx call whose status has to be \<open>PMIX_SUCCESS\<close>.\<close>
definition pmix_must_succeed :: "pmix_env \<Rightarrow> pmix_api \<Rightarrow> shim_state \<Rightarrow> int outcome \<times> shim_state" where
  "pmix_must_succeed env api s =
     (let (rc, s1) = pmix_call env api s
      in (Returns (if rc \<noteq> PMIX_SUCCESS then STATUS_FAIL else STATUS_OK), s1))"

text \<open>
  A PMIx call that may also answer \<open>PMIX_OPERATION_SUCCEEDED\<close>:
  \<open>if ((PMIX_SUCCESS != rc) && (PMIX_OPERATION_SUCCEEDED != rc)) return STATUS_FAIL;\<close>
\<close>
definition pmix_may_succeed_at_once ::
  "pmix_env \<Rightarrow> pmix_api \<Rightarrow> shim_state \<Rightarrow> int outcome \<times> shim_state" where
  "pmix_may_succeed_at_once env api s =
     (let (rc, s1) = pmix_call env api s
      in (Returns (if rc \<noteq> PMIX_SUCCESS \<and> rc \<noteq> PMIX_OPERATION_SUCCEEDED
                   then STATUS_FAIL else STATUS_OK), s1))"

text \<open>
  \<open>setup_signal_handlers\<close>: \<open>sigaction\<close> for SIGHUP, SIGINT and SIGTERM; the first
  \<open>-1\<close> returns STATUS_FAIL.
\<close>
definition setup_signal_handlers :: "pmix_env \<Rightarrow> shim_state \<Rightarrow> int outcome \<times> shim_state" where
  "setup_signal_handlers env s =
     (if sigaction_rc env 0 = - 1 \<or> sigaction_rc env 1 = - 1 \<or> sigaction_rc env 2 = - 1
      then (Returns STATUS_FAIL, s) else (Returns STATUS_OK, s))"

text \<open>\<open>if (0 != atexit(exit_handler)) return STATUS_FAIL;\<close>, as a step with a status.\<close>
definition install_exit_handler :: "pmix_env \<Rightarrow> shim_state \<Rightarrow> int outcome \<times> shim_state" where
  "install_exit_handler env s =
     (if 0 \<noteq> atexit_rc env then (Returns STATUS_FAIL, s)
      else (Returns STATUS_OK, s\<lparr>atexit_registered := True\<rparr>))"

text \<open>
  \<open>query_launcher_namespace\<close>: two \<open>PMIx_Get\<close>, each fatal unless it succeeds with a
  non-null value of the expected type; fatal too when the namespace is empty. Its
  \<open>launcher_namespace\<close> is a local buffer.
\<close>
definition query_launcher_namespace :: "pmix_env \<Rightarrow> shim_state \<Rightarrow> int outcome \<times> shim_state" where
  "query_launcher_namespace env s =
     (let k1 = calls_so_far PMIx_Get s;
          (rc1, s1) = pmix_call env PMIx_Get s
      in if rc1 = PMIX_SUCCESS then
           (case get_value env k1 of
              Some (Val_string str) \<Rightarrow>
                (let k2 = calls_so_far PMIx_Get s1;
                     (rc2, s2) = pmix_call env PMIx_Get s1
                 in if rc2 = PMIX_SUCCESS then
                      (case get_value env k2 of
                         Some (Val_proc_rank r) \<Rightarrow>
                           (let s3 = s2\<lparr>launcher_proc :=
                                        PMIX_PROC_LOAD (Some (PMIX_LOAD_NSPACE str)) r\<rparr>
                            in if nspace (launcher_proc s3) = [] then pmix_fatal_error env s3
                               else (Returns STATUS_OK, s3))
                       | _ \<Rightarrow> pmix_fatal_error env s2)
                    else pmix_fatal_error env s2)
            | _ \<Rightarrow> pmix_fatal_error env s1)
         else pmix_fatal_error env s1)"

text \<open>
  \<open>initialize_as_tool\<close>. The attributes handed to \<open>PMIx_tool_init\<close> are not modelled;
  the session count is set while they are built. The status of
  \<open>query_launcher_namespace\<close> is not looked at.
\<close>
definition initialize_as_tool :: "pmix_env \<Rightarrow> shim_state \<Rightarrow> int outcome \<times> shim_state" where
  "initialize_as_tool env s =
     (let s1 = (if mpir_mode s = MPIR_SHIM_PROXY_MODE then s else s\<lparr>session_count := 1\<rparr>)
      in on_success (pmix_must_succeed env PMIx_tool_init)
           (and_then
              (if mpir_mode s = MPIR_SHIM_ATTACH_MODE then query_launcher_namespace env
               else (\<lambda>s2. (Returns STATUS_OK, s2)))
              (\<lambda>st s3. (Returns STATUS_OK, s3\<lparr>pmix_initialized := pmix_initialized s3 + 1\<rparr>)))
           s1)"

text \<open>
  The five \<open>register_..._handler\<close> functions are the same but for the event, the
  attributes and the variable that receives the handler id: register, wait for the
  registration callback, test the status it left in \<open>callback_reg_status\<close>.
\<close>
definition register_handler ::
  "pmix_env \<Rightarrow> (nat \<Rightarrow> shim_state \<Rightarrow> shim_state) \<Rightarrow> shim_state \<Rightarrow> int outcome \<times> shim_state" where
  "register_handler env store_id s =
     and_then (wait_for_condition env registration_cond)
       (\<lambda>u s1. if callback_reg_status s1 \<noteq> PMIX_SUCCESS then (Returns STATUS_FAIL, s1)
                else (Returns STATUS_OK, store_id (callback_reg_id s1) s1))
       (snd (pmix_call env PMIx_Register_event_handler s))"

definition register_default_event_handler :: "pmix_env \<Rightarrow> shim_state \<Rightarrow> int outcome \<times> shim_state" where
  "register_default_event_handler env =
     register_handler env (\<lambda>i s. s\<lparr>default_cb_id := Some i\<rparr>)"

definition register_launcher_complete_handler :: "pmix_env \<Rightarrow> shim_state \<Rightarrow> int outcome \<times> shim_state" where
  "register_launcher_complete_handler env =
     register_handler env (\<lambda>i s. s\<lparr>launch_complete_cb_id := Some i\<rparr>)"

definition register_launcher_ready_handler :: "pmix_env \<Rightarrow> shim_state \<Rightarrow> int outcome \<times> shim_state" where
  "register_launcher_ready_handler env =
     register_handler env (\<lambda>i s. s\<lparr>launch_ready_cb_id := Some i\<rparr>)"

definition register_launcher_terminate_handler :: "pmix_env \<Rightarrow> shim_state \<Rightarrow> int outcome \<times> shim_state" where
  "register_launcher_terminate_handler env =
     register_handler env (\<lambda>i s. s\<lparr>launcher_terminate_cb_id := Some i\<rparr>)"

definition register_application_terminate_handler :: "pmix_env \<Rightarrow> shim_state \<Rightarrow> int outcome \<times> shim_state" where
  "register_application_terminate_handler env =
     register_handler env (\<lambda>i s. s\<lparr>app_terminate_cb_id := Some i\<rparr>)"

text \<open>
  A loop of \<open>PMIX_ARGV_APPEND\<close> over an array of strings; the first failure returns
  STATUS_FAIL. A null entry (\<open>None\<close>) is handed to \<open>strdup\<close>: undefined.
\<close>
fun argv_append_all :: "pmix_env \<Rightarrow> string option list \<Rightarrow> shim_state \<Rightarrow> int outcome \<times> shim_state" where
  "argv_append_all env [] s = (Returns STATUS_OK, s)"
| "argv_append_all env (None # args) s = (Undefined_behaviour, s)"
| "argv_append_all env (Some a # args) s =
     (let (rc, s1) = pmix_call env PMIx_Argv_append s
      in if rc \<noteq> PMIX_SUCCESS then (Returns STATUS_FAIL, s1) else argv_append_all env args s1)"

text \<open>
  The entries \<open>run_args[0 .. num_run_args - 1]\<close>: the strings of the array, then its null
  terminator; the loop cannot get past the terminator.
\<close>
definition run_arg_entries :: "shim_state \<Rightarrow> string option list" where
  "run_arg_entries s = take (nat (num_run_args s)) (map Some (run_args s) @ [None])"

text \<open>
  The rendezvous URI: \<open>PMIx_Get\<close> of the tool's server URI, then \<open>PMIX_SETENV\<close> of
  \<open>strdup(server_uri->data.string)\<close>. A null value or string is undefined behaviour.
\<close>
definition export_rendezvous_uri :: "pmix_env \<Rightarrow> shim_state \<Rightarrow> int outcome \<times> shim_state" where
  "export_rendezvous_uri env s =
     (let k = calls_so_far PMIx_Get s;
          (rc, s1) = pmix_call env PMIx_Get s
      in if rc \<noteq> PMIX_SUCCESS then (Returns STATUS_FAIL, s1)
         else (case get_value env k of
                 Some (Val_string (Some uri)) \<Rightarrow> pmix_must_succeed env PMIx_Setenv s1
               | _ \<Rightarrow> (Undefined_behaviour, s1)))"

text \<open>
  \<open>PMIx_Spawn\<close> writes the launcher's namespace; in NONPROXY mode rank 0 of it becomes
  \<open>launcher_proc\<close>.
\<close>
definition spawn_call :: "pmix_env \<Rightarrow> shim_state \<Rightarrow> int outcome \<times> shim_state" where
  "spawn_call env s =
     on_success (pmix_may_succeed_at_once env PMIx_Spawn)
       (\<lambda>s1. (Returns STATUS_OK,
               if mpir_mode s1 = MPIR_SHIM_NONPROXY_MODE
               then s1\<lparr>launcher_proc := PMIX_PROC_LOAD (Some (spawn_nspace env)) 0,
                       launcher_namespace := PMIX_LOAD_NSPACE (Some (spawn_nspace env))\<rparr>
               else s1\<lparr>launcher_namespace := PMIX_LOAD_NSPACE (Some (spawn_nspace env))\<rparr>))
       s"

text \<open>
  \<open>spawn_launcher_and_application\<close>. The application context (command, argv, cwd,
  environment) and the spawn directives go to PMIx and are not modelled beyond the calls
  that build them and can fail.
\<close>
definition spawn_launcher_and_application :: "pmix_env \<Rightarrow> shim_state \<Rightarrow> int outcome \<times> shim_state" where
  "spawn_launcher_and_application env s =
     (let s1 = s\<lparr>launcher_namespace := [],
                 launcher_proc := \<lparr>nspace = [], rank = PMIX_RANK_WILDCARD\<rparr>\<rparr>
      in if run_args s1 = [] then (Undefined_behaviour, s1)
         else
           on_success (argv_append_all env (run_arg_entries s1))
             (on_success
                (if mpir_mode s1 \<noteq> MPIR_SHIM_ATTACH_MODE then export_rendezvous_uri env
                 else (\<lambda>s2. (Returns STATUS_OK, s2)))
                (on_success
                   (if mpir_mode s1 = MPIR_SHIM_PROXY_MODE
                    then argv_append_all env (map Some (environ env))
                    else (\<lambda>s2. (Returns STATUS_OK, s2)))
                   (spawn_call env)))
             s1)"

definition connect_to_server :: "pmix_env \<Rightarrow> shim_state \<Rightarrow> int outcome \<times> shim_state" where
  "connect_to_server env s =
     on_success (pmix_must_succeed env PMIx_tool_set_server)
       (\<lambda>s1. (Returns STATUS_OK, s1\<lparr>session_count := session_count s1 + 1\<rparr>))
       (s\<lparr>launcher_proc := PMIX_PROC_LOAD (Some (launcher_namespace s)) PMIX_RANK_WILDCARD\<rparr>)"

text \<open>\<open>release_procs_in_namespace\<close>: one \<open>PMIx_Notify_event\<close> of the debugger release.\<close>
definition release_procs_in_namespace ::
  "pmix_env \<Rightarrow> string \<Rightarrow> 32 word \<Rightarrow> shim_state \<Rightarrow> int outcome \<times> shim_state" where
  "release_procs_in_namespace env namespace r s = pmix_may_succeed_at_once env PMIx_Notify_event s"

text \<open>
  \<open>query_application_namespace\<close>: the response has to be one info item holding a
  string.
\<close>
definition query_application_namespace :: "pmix_env \<Rightarrow> shim_state \<Rightarrow> int outcome \<times> shim_state" where
  "query_application_namespace env s =
     on_success (pmix_must_succeed env PMIx_Argv_append)
       (\<lambda>s0. let k = calls_so_far PMIx_Query_info s0
              in on_success (pmix_must_succeed env PMIx_Query_info)
                   (\<lambda>s1. case query_data env k of
                            [Val_string str] \<Rightarrow>
                              (Returns STATUS_OK,
                               s1\<lparr>application_proc := PMIX_PROC_LOAD str PMIX_RANK_WILDCARD\<rparr>)
                          | _ \<Rightarrow> (Returns STATUS_FAIL, s1))
                   s0)
       s"

section \<open>The driver\<close>

text \<open>
  The launch path of \<open>MPIR_Shim_common\<close> (the mode is not ATTACH), in the order of the
  source and cut into stages, the last one first.
\<close>
definition shim_finish :: "pmix_env \<Rightarrow> shim_state \<Rightarrow> int outcome \<times> shim_state" where
  "shim_finish env =
     and_then (wait_for_condition env launch_term_cond)
       (\<lambda>u. discard_status ''finalize_as_tool'' (returning (finalize_as_tool env))
              (\<lambda>s. (Returns (launcher_exit_code s), s)))"

definition shim_release_application :: "pmix_env \<Rightarrow> shim_state \<Rightarrow> int outcome \<times> shim_state" where
  "shim_release_application env s =
     if_fail_return ''release_procs_in_namespace''
       (release_procs_in_namespace env (nspace (application_proc s)) PMIX_RANK_WILDCARD)
       (shim_finish env) s"

definition shim_debug :: "pmix_env \<Rightarrow> shim_state \<Rightarrow> int outcome \<times> shim_state" where
  "shim_debug env =
     if_fail_return ''pmix_proc_table_to_mpir''
       (pmix_proc_table_to_mpir_among (callbacks_before_stop env) env)
       (\<lambda>s. if mpir_mode s = MPIR_SHIM_PROXY_MODE
             then if_fail_return ''register_application_terminate_handler''
                    (register_application_terminate_handler env)
                    (shim_release_application env) s
             else shim_release_application env s)"

definition shim_handlers :: "pmix_env \<Rightarrow> shim_state \<Rightarrow> int outcome \<times> shim_state" where
  "shim_handlers env =
     if_fail_return ''register_launcher_terminate_handler''
       (register_launcher_terminate_handler env)
       (if_fail_return ''register_launcher_ready_handler''
          (register_launcher_ready_handler env)
          (\<lambda>s. if_fail_return ''release_procs_in_namespace''
                  (release_procs_in_namespace env (nspace (launcher_proc s)) 0)
                  (if_fail_return ''register_launcher_complete_handler''
                     (register_launcher_complete_handler env)
                     (and_then (wait_for_condition env ready_for_debug_cond)
                        (\<lambda>u. shim_debug env)))
                  s))"

definition shim_launch :: "pmix_env \<Rightarrow> shim_state \<Rightarrow> int outcome \<times> shim_state" where
  "shim_launch env =
     if_fail_return ''spawn_launcher_and_application'' (spawn_launcher_and_application env)
       (\<lambda>s. if mpir_mode s = MPIR_SHIM_PROXY_MODE
             then if_fail_return ''connect_to_server'' (connect_to_server env)
                    (shim_handlers env) s
             else shim_handlers env s)"

text \<open>The attach path of \<open>MPIR_Shim_common\<close>.\<close>
definition shim_attach :: "pmix_env \<Rightarrow> shim_state \<Rightarrow> int outcome \<times> shim_state" where
  "shim_attach env =
     if_fail_return ''query_application_namespace'' (query_application_namespace env)
    (if_fail_return ''pmix_proc_table_to_mpir''
       (pmix_proc_table_to_mpir_among (callbacks_before_stop env) env)
    (discard_status ''finalize_as_tool'' (returning (finalize_as_tool env))
    (\<lambda>s. (Returns 0, s))))"

text \<open>
  \<open>MPIR_Shim_common\<close>, built without \<open>MPIR_SHIM_TESTCASE\<close>. \<open>argv\<close> is the list of the
  strings of the null-terminated array, \<open>pmix_prefix'\<close> is \<open>None\<close> for a null pointer.
\<close>
definition shim_setup :: "pmix_env \<Rightarrow> shim_state \<Rightarrow> int outcome \<times> shim_state" where
  "shim_setup env =
     if_fail_return ''setup_signal_handlers'' (setup_signal_handlers env)
       (if_fail_return ''atexit'' (install_exit_handler env)
          (if_fail_return ''initialize_as_tool'' (initialize_as_tool env)
             (unless_ok_return ''register_default_event_handler''
                (register_default_event_handler env)
                (\<lambda>s. if mpir_mode s \<noteq> MPIR_SHIM_ATTACH_MODE then shim_launch env s
                      else shim_attach env s))))"

definition MPIR_Shim_common ::
  "pmix_env \<Rightarrow> mpir_shim_mode_t \<Rightarrow> int \<Rightarrow> int \<Rightarrow> int \<Rightarrow> string list \<Rightarrow> string option \<Rightarrow>
   shim_state \<Rightarrow> int outcome \<times> shim_state" where
  "MPIR_Shim_common env mpir_mode' pid' debug' argc argv pmix_prefix' s =
     if_fail_return ''process_options'' (process_options mpir_mode' pid' debug' argc argv)
       (\<lambda>s1. shim_setup env
                (case pmix_prefix' of None \<Rightarrow> s1 | Some p \<Rightarrow> s1\<lparr>pmix_prefix := Some p\<rparr>))
       (s\<lparr>launcher_proc := PMIX_PROC_LOAD None PMIX_RANK_WILDCARD,
          application_proc := PMIX_PROC_LOAD None PMIX_RANK_WILDCARD\<rparr>)"

section \<open>Notions used in the statements\<close>

text \<open>
  The exit codes an event's info items report, in the order of the items: the values of
  the \<open>PMIX_EXIT_CODE\<close> and \<open>PMIX_JOB_TERM_STATUS\<close> items.
\<close>
fun reported_codes :: "pmix_info_t list \<Rightarrow> int list" where
  "reported_codes [] = []"
| "reported_codes (Info_exit_code v # info) = v # reported_codes info"
| "reported_codes (Info_job_term_status v # info) = v # reported_codes info"
| "reported_codes (_ # info) = reported_codes info"

text \<open>The non-zero ones among them.\<close>
definition abort_codes :: "pmix_info_t list \<Rightarrow> int list" where
  "abort_codes info = filter (\<lambda>v. v \<noteq> 0) (reported_codes info)"

text \<open>The conditions of a list on which a wait would block (flag 1).\<close>
definition armed :: "shim_state \<Rightarrow> cond_id list \<Rightarrow> cond_id list" where
  "armed s cs = filter (\<lambda>c. flag c s = 1) cs"

text \<open>The rank of a response record, as the unsigned number PMIx sends.\<close>
definition rank_index :: "pmix_proc_info_t \<Rightarrow> nat" where
  "rank_index p = unat (rank (proc p))"

text \<open>The descriptor that holds a record's pid and copies of its two strings.\<close>
definition procdesc_of :: "pmix_proc_info_t \<Rightarrow> MPIR_PROCDESC" where
  "procdesc_of p =
     \<lparr>host_name = hostname p, executable_name = pi_executable_name p, pid = pi_pid p\<rparr>"

definition strings_present :: "pmix_proc_info_t \<Rightarrow> bool" where
  "strings_present p = (hostname p \<noteq> None \<and> pi_executable_name p \<noteq> None)"

text \<open>The ranks of the N records are exactly the set {0, ..., N-1}.\<close>
definition ranks_exact :: "pmix_proc_info_t list \<Rightarrow> bool" where
  "ranks_exact recs = (rank_index ` set recs = {0..<length recs})"

text \<open>Writing a record's descriptor at the index of its rank.\<close>
definition place :: "pmix_proc_info_t \<Rightarrow> MPIR_PROCDESC option list \<Rightarrow> MPIR_PROCDESC option list" where
  "place p table = table[rank_index p := Some (procdesc_of p)]"

text \<open>
  The response that \<open>pmix_proc_table_to_mpir\<close> receives in state \<open>s\<close>: the records of
  the data array, when the query is built and answered with success and its first info
  item is a data array of process records.
\<close>
definition proctable_response :: "pmix_env \<Rightarrow> shim_state \<Rightarrow> pmix_proc_info_t list option" where
  "proctable_response env s =
     (if pmix_rc env PMIx_Argv_append (calls_so_far PMIx_Argv_append s) = PMIX_SUCCESS \<and>
         pmix_rc env PMIx_Query_info (calls_so_far PMIx_Query_info s) = PMIX_SUCCESS
      then (case query_data env (calls_so_far PMIx_Query_info s) of
              Val_proc_info_array (Some recs) # _ \<Rightarrow> Some recs
            | _ \<Rightarrow> None)
      else None)"

text \<open>The values stored to \<open>MPIR_debug_state\<close>, in the order of the stores.\<close>
fun debug_state_writes :: "effect list \<Rightarrow> int list" where
  "debug_state_writes [] = []"
| "debug_state_writes (Debug_state_write v # es) = v # debug_state_writes es"
| "debug_state_writes (_ # es) = debug_state_writes es"

text \<open>
  What is expected of an effect: a store to \<open>MPIR_debug_state\<close> writes SPAWNED or
  ABORTING, and a debugger stopped in \<open>MPIR_Breakpoint\<close> reads a state other than
  MPIR_NULL and either a table with \<open>MPIR_proctable_size\<close> slots or, with a negative
  size, a null pointer.
\<close>
definition effect_ok :: "effect \<Rightarrow> bool" where
  "effect_ok e =
     (case e of
        Debug_state_write v \<Rightarrow> v = MPIR_DEBUG_SPAWNED \<or> v = MPIR_DEBUG_ABORTING
      | Breakpoint_hit st tab n \<Rightarrow>
          st \<noteq> MPIR_NULL \<and>
          (case tab of None \<Rightarrow> n < 0 | Some t \<Rightarrow> int (length t) = n)
      | _ \<Rightarrow> True)"

text \<open>
  What a callback may add to the trace: no wait, no stop in \<open>MPIR_Breakpoint\<close>, and
  no call into PMIx but the \<open>PMIx_tool_finalize\<close> of a fatal error.
\<close>
definition quiet :: "effect \<Rightarrow> bool" where
  "quiet e =
     (case e of
        Pmix_call api \<Rightarrow> api = PMIx_tool_finalize
      | Cond_wait c \<Rightarrow> False
      | Breakpoint_hit st tab n \<Rightarrow> False
      | _ \<Rightarrow> True)"

text \<open>
  What the callbacks leave alone: they add quiet effects only, and they do not touch
  \<open>MPIR_proctable\<close> and \<open>MPIR_proctable_size\<close>.
\<close>
definition callback_rel :: "shim_state \<Rightarrow> shim_state \<Rightarrow> bool" where
  "callback_rel s s' =
     ((\<exists>es. trace s' = trace s @ es \<and> list_all quiet es) \<and>
      MPIR_proctable s' = MPIR_proctable s \<and> MPIR_proctable_size s' = MPIR_proctable_size s)"

text \<open>
  State \<open>s'\<close> follows state \<open>s\<close>: the trace has grown by expected effects only, and
  \<open>MPIR_debug_state\<close> holds the last value stored since \<open>s\<close>, or its old value when
  nothing was stored.
\<close>
definition follows :: "shim_state \<Rightarrow> shim_state \<Rightarrow> bool" where
  "follows s s' =
     (\<exists>es. trace s' = trace s @ es \<and> list_all effect_ok es \<and>
           MPIR_debug_state s' = last (MPIR_debug_state s # debug_state_writes es))"

text \<open>
  A step of the driver, and every function below it, leaves the history of statuses and the
  run mode alone.
\<close>
definition step_rel :: "shim_state \<Rightarrow> shim_state \<Rightarrow> bool" where
  "step_rel s s' = (follows s s' \<and> status_log s' = status_log s \<and> mpir_mode s' = mpir_mode s)"

text \<open>The driver after \<open>process_options\<close> leaves the run mode alone.\<close>
definition run_rel :: "shim_state \<Rightarrow> shim_state \<Rightarrow> bool" where
  "run_rel s s' = (follows s s' \<and> mpir_mode s' = mpir_mode s)"


text \<open>
  The statuses that a list of callbacks stores to \<open>callback_reg_status\<close>, in their
  order: \<open>registration_complete_handler\<close> and \<open>launcher_ready_handler\<close> write it.
\<close>
fun status_writes :: "event list \<Rightarrow> pmix_status_t list" where
  "status_writes [] = []"
| "status_writes (Registration_complete st r # evs) = st # status_writes evs"
| "status_writes (Launcher_ready st cb # evs) = st # status_writes evs"
| "status_writes (_ # evs) = status_writes evs"

text \<open>
  The statuses of a PMIx call that its callers in the shim refuse: anything but
  PMIX_SUCCESS, and for \<open>PMIx_Spawn\<close> and \<open>PMIx_Notify_event\<close> anything but
  PMIX_SUCCESS and PMIX_OPERATION_SUCCEEDED. Two entry points are left out:
  \<open>PMIx_Register_event_handler\<close>, whose return value no caller reads (the registration
  callback reports the status), and \<open>PMIx_tool_finalize\<close>, whose failure makes
  \<open>finalize_as_tool\<close> return STATUS_FAIL to callers that all discard it.
\<close>
definition refuses :: "pmix_api \<Rightarrow> pmix_status_t \<Rightarrow> bool" where
  "refuses api rc =
     (if api = PMIx_tool_finalize \<or> api = PMIx_Register_event_handler then False
      else if api = PMIx_Spawn \<or> api = PMIx_Notify_event
      then rc \<noteq> PMIX_SUCCESS \<and> rc \<noteq> PMIX_OPERATION_SUCCEEDED
      else rc \<noteq> PMIX_SUCCESS)"

text \<open>The calls of an entry point, the waits and the stops in a trace.\<close>
definition calls_in :: "pmix_api \<Rightarrow> effect list \<Rightarrow> nat" where
  "calls_in api es = length (filter (\<lambda>e. e = Pmix_call api) es)"

definition waits_in :: "effect list \<Rightarrow> nat" where
  "waits_in es = length (filter (\<lambda>e. case e of Cond_wait c \<Rightarrow> True | _ \<Rightarrow> False) es)"

definition stops_in :: "effect list \<Rightarrow> nat" where
  "stops_in es =
     length (filter (\<lambda>e. case e of Breakpoint_hit st tab n \<Rightarrow> True | _ \<Rightarrow> False) es)"

text \<open>
  What the environment handed to the shim along the effects \<open>es\<close> that follow the trace
  \<open>pre\<close>, read off the environment alone. The second component is the status in
  \<open>callback_reg_status\<close>: the callbacks of each wait and of each stop may store to it.
  The first component says whether the environment has given an answer that the shim
  refuses: a status of a PMIx call that \<open>refuses\<close> lists, or a registration at the end
  of whose wait \<open>callback_reg_status\<close> is not PMIX_SUCCESS.
\<close>
fun observe ::
  "pmix_env \<Rightarrow> effect list \<Rightarrow> effect list \<Rightarrow> bool \<times> pmix_status_t \<Rightarrow> bool \<times> pmix_status_t" where
  "observe env pre [] seen = seen"
| "observe env pre (Pmix_call api # es) seen =
     observe env (pre @ [Pmix_call api]) es
       (fst seen \<or> refuses api (pmix_rc env api (calls_in api pre)), snd seen)"
| "observe env pre (Cond_wait c # es) seen =
     (let st = last (snd seen # status_writes (events env (waits_in pre)))
      in observe env (pre @ [Cond_wait c]) es
           (fst seen \<or> (c = registration_cond \<and> st \<noteq> PMIX_SUCCESS), st))"
| "observe env pre (Breakpoint_hit dbg tab n # es) seen =
     observe env (pre @ [Breakpoint_hit dbg tab n]) es
       (fst seen, last (snd seen # status_writes (interleaved env (stops_in pre))))"
| "observe env pre (e # es) seen = observe env (pre @ [e]) es seen"

text \<open>
  Between state \<open>s\<close> and a later state \<open>s'\<close> the environment has given an answer that
  the shim refuses.
\<close>
definition refusal :: "pmix_env \<Rightarrow> shim_state \<Rightarrow> shim_state \<Rightarrow> bool" where
  "refusal env s s' =
     fst (observe env (trace s) (drop (length (trace s)) (trace s')) (False, callback_reg_status s))"



text \<open>
  State \<open>s'\<close> is reached from \<open>s\<close> with \<open>callback_reg_status\<close> holding what the
  environment's callbacks have stored to it.
\<close>
definition tracked :: "pmix_env \<Rightarrow> shim_state \<Rightarrow> shim_state \<Rightarrow> bool" where
  "tracked env s s' =
     (\<exists>es. trace s' = trace s @ es \<and>
        callback_reg_status s' = snd (observe env (trace s) es (False, callback_reg_status s)))"

text \<open>
  A step answers the environment: whenever it returns, its status is STATUS_FAIL if the
  environment has given it an answer that the shim refuses or the cause \<open>X\<close> holds where
  it starts, and STATUS_OK otherwise.
\<close>
definition tested ::
  "pmix_env \<Rightarrow> (shim_state \<Rightarrow> bool) \<Rightarrow> (shim_state \<Rightarrow> int outcome \<times> shim_state) \<Rightarrow> bool" where
  "tested env X f =
     (\<forall>s st s1. f s = (Returns st, s1) \<longrightarrow>
        tracked env s s1 \<and>
        (if refusal env s s1 \<or> X s then st = STATUS_FAIL else st = STATUS_OK))"


text \<open>The breakpoint stops of a trace: at each, the debug state, the table and its size.\<close>
fun breakpoint_hits :: "effect list \<Rightarrow> (int \<times> MPIR_PROCDESC option list option \<times> int) list" where
  "breakpoint_hits [] = []"
| "breakpoint_hits (Breakpoint_hit st tab n # es) = (st, tab, n) # breakpoint_hits es"
| "breakpoint_hits (_ # es) = breakpoint_hits es"


section \<open>Concrete environments and inputs\<close>

text \<open>An environment in which every call succeeds and no event is delivered.\<close>
definition env_all_ok :: pmix_env where
  "env_all_ok = \<lparr> pmix_rc = (\<lambda>api k. PMIX_SUCCESS), get_value = (\<lambda>k. None),
     spawn_nspace = ''prterun-1'', query_data = (\<lambda>k. []),
     sigaction_rc = (\<lambda>k. 0), atexit_rc = 0, environ = [], events = (\<lambda>k. []),
     interleaved = (\<lambda>k. []) \<rparr>"

text \<open>The same, except that \<open>PMIx_tool_finalize\<close> fails with PMIX_ERROR (-1).\<close>
definition env_finalize_fails :: pmix_env where
  "env_finalize_fails = env_all_ok\<lparr> pmix_rc :=
     (\<lambda>api k. if api = PMIx_tool_finalize then PMIX_STATUS_OTHER (- 1) else PMIX_SUCCESS) \<rparr>"

text \<open>A response record on host \<open>node0\<close> running \<open>a.out\<close>, with the given rank and pid.\<close>
definition proc_record :: "32 word \<Rightarrow> int \<Rightarrow> pmix_proc_info_t" where
  "proc_record r p = \<lparr>proc = \<lparr>nspace = ''app.1'', rank = r\<rparr>, hostname = Some ''node0'',
     pi_executable_name = Some ''a.out'', pi_pid = p, exit_code = 0\<rparr>"

text \<open>An environment that answers every query with the given process records.\<close>
definition env_proctable :: "pmix_proc_info_t list \<Rightarrow> pmix_env" where
  "env_proctable recs = env_all_ok\<lparr>query_data := (\<lambda>k. [Val_proc_info_array (Some recs)])\<rparr>"

text \<open>
  The callbacks of a launch in PROXY mode, by the wait during which they run: the
  completions of the first four registrations, launch-complete and ready-for-debug during
  the wait for readiness, the completion of the fifth registration, and the launcher's
  termination with the given exit code during the last wait.
\<close>
definition launch_events :: "int \<Rightarrow> nat \<Rightarrow> event list" where
  "launch_events code k =
     (if k < 4 then [Registration_complete PMIX_SUCCESS k]
      else if k = 4 then [Launcher_complete [Info_nspace (Some ''app.1'')] True,
                          Launcher_ready PMIX_READY_FOR_DEBUG True]
      else if k = 5 then [Registration_complete PMIX_SUCCESS 4]
      else if k = 6 then [Launcher_terminate [Info_exit_code code] True]
      else [])"

text \<open>
  An environment for a launch: every call succeeds, \<open>PMIx_Get\<close> yields a server URI,
  the proctable query yields two records (rank 1 first).
\<close>
definition env_launch :: "int \<Rightarrow> pmix_env" where
  "env_launch code = env_all_ok\<lparr>
     get_value := (\<lambda>k. Some (Val_string (Some ''tcp4://127.0.0.1:4242''))),
     query_data := (\<lambda>k. [Val_proc_info_array (Some [proc_record 1 101, proc_record 0 100])]),
     events := launch_events code\<rparr>"






text \<open>
  A launch in which the launcher terminates with exit code 42 while the driver thread is
  between its store of SPAWNED and its call of \<open>MPIR_Breakpoint\<close>.
\<close>
definition env_abort_at_stop :: pmix_env where
  "env_abort_at_stop = (env_launch 42)\<lparr>
     events := (\<lambda>k. if k = 6 then [] else launch_events 42 k),
     interleaved := (\<lambda>k. if k = 0 then [Launcher_terminate [Info_exit_code 42] True] else [])\<rparr>"

section \<open>Theorems: tool finalisation\<close>

lemma finalize_times_noop: "pmix_initialized s \<le> 0 \<Longrightarrow> finalize_times k env s = s"
  by (induction k) (simp_all add: finalize_as_tool_def)

lemma finalize_as_tool_count:
  "pmix_initialized (snd (finalize_as_tool env s)) =
     (if 0 < pmix_initialized s then pmix_initialized s - 1 else pmix_initialized s)"
  by (simp add: finalize_as_tool_def pmix_call_def emit_def Let_def)

text \<open>
  C6, as the code has it. \<open>finalize_as_tool\<close> calls \<open>PMIx_tool_finalize\<close> only when the
  init count is positive, and then it decrements the count whether the call succeeds or
  fails (the decrement stands before the test of the status); the status it returns is
  STATUS_OK exactly when the call succeeded. When the count is zero (or negative) it
  changes nothing, makes no PMIx call, and returns STATUS_OK.
\<close>
theorem finalize_as_tool_effect:
  "(0 < pmix_initialized s \<longrightarrow>
      snd (finalize_as_tool env s) =
        s\<lparr>trace := trace s @ [Pmix_call PMIx_tool_finalize],
          pmix_initialized := pmix_initialized s - 1\<rparr> \<and>
      (fst (finalize_as_tool env s) = STATUS_OK \<longleftrightarrow>
         pmix_rc env PMIx_tool_finalize (calls_so_far PMIx_tool_finalize s) = PMIX_SUCCESS) \<and>
      (fst (finalize_as_tool env s) = STATUS_FAIL \<longleftrightarrow>
         pmix_rc env PMIx_tool_finalize (calls_so_far PMIx_tool_finalize s) \<noteq> PMIX_SUCCESS)) \<and>
   (pmix_initialized s \<le> 0 \<longrightarrow> finalize_as_tool env s = (STATUS_OK, s))"
  by (simp add: finalize_as_tool_def pmix_call_def emit_def STATUS_OK_def STATUS_FAIL_def Let_def)

theorem finalize_as_tool_effect_witness:
  "fst (finalize_as_tool env_finalize_fails (initial_state\<lparr>pmix_initialized := 1\<rparr>)) = STATUS_FAIL \<and>
   snd (finalize_as_tool env_finalize_fails (initial_state\<lparr>pmix_initialized := 1\<rparr>)) =
     initial_state\<lparr>trace := [Pmix_call PMIx_tool_finalize], pmix_initialized := 0\<rparr> \<and>
   finalize_as_tool env_all_ok initial_state = (STATUS_OK, initial_state)"
  using finalize_as_tool_effect [of "initial_state\<lparr>pmix_initialized := 1\<rparr>" env_finalize_fails]
    finalize_as_tool_effect [of initial_state env_all_ok]
  by (simp add: env_finalize_fails_def env_all_ok_def initial_state_def calls_so_far_def)

text \<open>
  C6 as stated fails: with an init count of 1 and a failing \<open>PMIx_tool_finalize\<close>, the
  count does not stay unchanged.
\<close>
theorem finalize_as_tool_decrements_on_failure:
  "pmix_rc env_finalize_fails PMIx_tool_finalize 0 \<noteq> PMIX_SUCCESS \<and>
   pmix_initialized (initial_state\<lparr>pmix_initialized := 1\<rparr>) = 1 \<and>
   pmix_initialized
     (snd (finalize_as_tool env_finalize_fails (initial_state\<lparr>pmix_initialized := 1\<rparr>))) = 0"
  by (simp add: finalize_as_tool_def pmix_call_def emit_def env_finalize_fails_def
      env_all_ok_def initial_state_def calls_so_far_def Let_def)

text \<open>
  C7, as the code has it. From a state whose init count is at most 1 (the count after one
  \<open>initialize_as_tool\<close>), K calls of \<open>finalize_as_tool\<close>, K at least 1, leave the state
  that one call leaves: the same count, and the same single call of
  \<open>PMIx_tool_finalize\<close> in the trace.
\<close>
theorem finalize_idempotent_from_one:
  assumes "pmix_initialized s \<le> 1" and "1 \<le> K"
  shows "finalize_times K env s = snd (finalize_as_tool env s)"
proof -
  obtain k where K: "K = Suc k"
    using assms(2) by (cases K) auto
  have "pmix_initialized (snd (finalize_as_tool env s)) \<le> 0"
    using assms(1) by (simp add: finalize_as_tool_count)
  then show ?thesis
    by (simp add: K finalize_times_noop)
qed

theorem finalize_idempotent_from_one_witness:
  "finalize_times 3 env_all_ok (initial_state\<lparr>pmix_initialized := 1\<rparr>) =
     initial_state\<lparr>trace := [Pmix_call PMIx_tool_finalize], pmix_initialized := 0\<rparr>"
  using finalize_idempotent_from_one [of "initial_state\<lparr>pmix_initialized := 1\<rparr>" 3 env_all_ok]
  by (simp add: finalize_as_tool_def pmix_call_def emit_def env_all_ok_def initial_state_def
      calls_so_far_def Let_def)

text \<open>
  C7 as stated fails: from an init count of 2 (two initialisations without a finalise in
  between), two calls leave the count 0 and one call leaves it 1.
\<close>
theorem finalize_twice_differs_from_once:
  "pmix_initialized (finalize_times 2 env_all_ok (initial_state\<lparr>pmix_initialized := 2\<rparr>)) = 0 \<and>
   pmix_initialized (finalize_times 1 env_all_ok (initial_state\<lparr>pmix_initialized := 2\<rparr>)) = 1"
  by (simp add: numeral_2_eq_2 finalize_as_tool_def pmix_call_def emit_def env_all_ok_def
      initial_state_def calls_so_far_def Let_def)

section \<open>Field lemmas\<close>

declare string_of_nat.simps [simp del]

lemma flag_simps [simp]:
  "flag c (emit e s) = flag c s"
  "flag c (s\<lparr>trace := t\<rparr>) = flag c s"
  "flag c (s\<lparr>launcher_exit_code := v\<rparr>) = flag c s"
  "flag c (s\<lparr>launcher_terminated := v\<rparr>) = flag c s"
  "flag c (s\<lparr>MPIR_debug_state := v\<rparr>) = flag c s"
  "flag c (s\<lparr>MPIR_debug_abort_string := a\<rparr>) = flag c s"
  "flag c (s\<lparr>session_count := v\<rparr>) = flag c s"
  by (cases c; simp add: flag_def emit_def)+

lemma flag_set_flag [simp]: "flag c (set_flag c' v s) = (if c = c' then v else flag c s)"
  by (cases c; cases c'; simp add: flag_def set_flag_def)

lemma trace_set_flag [simp]: "trace (set_flag c v s) = trace s"
  by (cases c; simp add: set_flag_def)

lemma trace_emit [simp]: "trace (emit e s) = trace s @ [e]"
  by (simp add: emit_def)

lemma handler_fields [simp]:
  "MPIR_debug_state (set_flag c v s) = MPIR_debug_state s"
  "MPIR_debug_abort_string (set_flag c v s) = MPIR_debug_abort_string s"
  "launcher_terminated (set_flag c v s) = launcher_terminated s"
  "launcher_exit_code (set_flag c v s) = launcher_exit_code s"
  "session_count (set_flag c v s) = session_count s"
  "MPIR_debug_state (emit e s) = MPIR_debug_state s"
  "MPIR_debug_abort_string (emit e s) = MPIR_debug_abort_string s"
  "launcher_terminated (emit e s) = launcher_terminated s"
  "launcher_exit_code (emit e s) = launcher_exit_code s"
  "session_count (emit e s) = session_count s"
  by (cases c; simp add: set_flag_def emit_def)+

lemma release_conditions_fields [simp]:
  "MPIR_debug_state (release_conditions s) = MPIR_debug_state s"
  "MPIR_debug_abort_string (release_conditions s) = MPIR_debug_abort_string s"
  "launcher_terminated (release_conditions s) = launcher_terminated s"
  "launcher_exit_code (release_conditions s) = launcher_exit_code s"
  "session_count (release_conditions s) = session_count s"
  by (simp_all add: release_conditions_def release_one_def)

lemma release_conditions_trace:
  "trace (release_conditions s) = trace s @ map Cond_broadcast
     (armed s [registration_cond, ready_for_debug_cond, launch_complete_cond, launch_term_cond])"
  by (simp add: release_conditions_def release_one_def armed_def)

lemma release_conditions_flag: "flag c (release_conditions s) \<noteq> 1"
  by (cases c; simp add: release_conditions_def release_one_def)

lemma call_cbfunc_fields [simp]:
  "MPIR_debug_state (call_cbfunc b s) = MPIR_debug_state s"
  "MPIR_debug_abort_string (call_cbfunc b s) = MPIR_debug_abort_string s"
  "launcher_terminated (call_cbfunc b s) = launcher_terminated s"
  "launcher_exit_code (call_cbfunc b s) = launcher_exit_code s"
  "session_count (call_cbfunc b s) = session_count s"
  "flag c (call_cbfunc b s) = flag c s"
  "trace (call_cbfunc b s) = trace s @ (if b then [Event_action_complete] else [])"
  by (simp_all add: call_cbfunc_def)

section \<open>Theorems: mode resolution\<close>

lemma strrchr_None: "strrchr xs c = None \<longleftrightarrow> c \<notin> set xs"
  by (induction xs) (auto split: option.splits)

lemma basename_no_slash: "c \<notin> set xs \<Longrightarrow> rev (takeWhile (\<lambda>x. x \<noteq> c) (rev xs)) = xs"
  by (subst takeWhile_eq_all_conv [THEN iffD2]) auto

lemma basename_leading_slash:
  "c \<notin> set xs \<Longrightarrow> rev (takeWhile (\<lambda>x. x \<noteq> c) (rev xs @ [c])) = xs"
  by (subst takeWhile_append2) auto

lemma strrchr_Some: "strrchr xs c = Some r \<Longrightarrow> r = c # rev (takeWhile (\<lambda>x. x \<noteq> c) (rev xs))"
proof (induction xs arbitrary: r)
  case Nil
  then show ?case by simp
next
  case (Cons x xs)
  show ?case
  proof (cases "strrchr xs c")
    case None
    then have notin: "c \<notin> set xs" by (simp add: strrchr_None)
    from Cons.prems None have "x = c" and "r = x # xs"
      by (auto split: if_splits)
    then show ?thesis
      using basename_leading_slash [OF notin] by simp
  next
    case (Some r')
    then have "c \<in> set xs" using strrchr_None [of xs c] by auto
    then have "takeWhile (\<lambda>x. x \<noteq> c) (rev xs @ [x]) = takeWhile (\<lambda>x. x \<noteq> c) (rev xs)"
      by (intro takeWhile_append1[where x=c]) auto
    with Cons Some show ?thesis by simp
  qed
qed

text \<open>The pointer arithmetic of the code computes the basename of the spec.\<close>
lemma launcher_base_is_basename: "launcher_base p = basename_spec p"
proof (cases "strrchr p (CHR ''/'')")
  case None
  then have "CHR ''/'' \<notin> set p" by (simp add: strrchr_None)
  from basename_no_slash [OF this] None show ?thesis
    by (simp add: launcher_base_def basename_spec_def)
next
  case (Some r)
  from strrchr_Some [OF this] Some show ?thesis
    by (simp add: launcher_base_def basename_spec_def)
qed

lemma process_options_attach_invalid:
  "pid' \<le> 0 \<Longrightarrow>
   process_options MPIR_SHIM_ATTACH_MODE pid' debug' argc argv s = (Returns STATUS_FAIL, s)"
  by (simp add: process_options_def)

text \<open>
  C9. In DYNAMIC mode, for every argument vector that has an \<open>argv[0]\<close>,
  \<open>process_options\<close> succeeds and the mode it resolves is NONPROXY when the basename of
  \<open>argv[0]\<close> (the part after the last \<open>/\<close>) is \<open>prun\<close>, and PROXY for any other
  basename. In ATTACH mode with a pid that is not positive it returns STATUS_FAIL and
  changes nothing; \<open>MPIR_Shim_common\<close> then returns STATUS_FAIL with the trace as it
  was, so no PMIx call has been made.
\<close>
theorem process_options_resolves_mode:
  "process_options MPIR_SHIM_DYNAMIC_PROXY_MODE pid' debug' argc (argv0 # rest) s =
     (Returns STATUS_OK,
      s\<lparr>mpir_mode := (if basename_spec argv0 = ''prun'' then MPIR_SHIM_NONPROXY_MODE
                       else MPIR_SHIM_PROXY_MODE),
        debug_active := (debug' \<noteq> 0), num_run_args := argc, run_args := argv0 # rest\<rparr>) \<and>
   (pid' \<le> 0 \<longrightarrow>
      process_options MPIR_SHIM_ATTACH_MODE pid' debug' argc argv s = (Returns STATUS_FAIL, s) \<and>
      fst (MPIR_Shim_common env MPIR_SHIM_ATTACH_MODE pid' debug' argc argv prefix s) =
        Returns STATUS_FAIL \<and>
      trace (snd (MPIR_Shim_common env MPIR_SHIM_ATTACH_MODE pid' debug' argc argv prefix s)) =
        trace s)"
  by (simp add: MPIR_Shim_common_def if_fail_return_def and_then_def log_status_def
      process_options_attach_invalid)
     (simp add: process_options_def launcher_base_is_basename)

theorem process_options_resolves_mode_witness:
  "mpir_mode (snd (process_options MPIR_SHIM_DYNAMIC_PROXY_MODE 0 0 4
      [''/opt/bin/prun'', ''-n'', ''2'', ''./hi''] initial_state)) = MPIR_SHIM_NONPROXY_MODE \<and>
   mpir_mode (snd (process_options MPIR_SHIM_DYNAMIC_PROXY_MODE 0 0 4
      [''mpirun'', ''-n'', ''4'', ''./hello''] initial_state)) = MPIR_SHIM_PROXY_MODE \<and>
   fst (MPIR_Shim_common env_all_ok MPIR_SHIM_ATTACH_MODE 0 0 0 [] None initial_state) =
     Returns STATUS_FAIL \<and>
   trace (snd (MPIR_Shim_common env_all_ok MPIR_SHIM_ATTACH_MODE 0 0 0 [] None initial_state)) = []"
proof -
  have "trace initial_state = []"
    by (simp add: initial_state_def)
  then show ?thesis
    using process_options_resolves_mode
        [of 0 0 4 "''/opt/bin/prun''" "[''-n'', ''2'', ''./hi'']" initial_state "[]" env_all_ok None]
      process_options_resolves_mode
        [of 0 0 4 "''mpirun''" "[''-n'', ''4'', ''./hello'']" initial_state "[]" env_all_ok None]
      process_options_resolves_mode
        [of 0 0 0 "''mpirun''" "[]" initial_state "[]" env_all_ok None]
    by (simp add: basename_spec_def)
qed

section \<open>Theorems: the terminate and default handlers\<close>

lemma note_abort_fields:
  "trace (note_abort who v s) =
     trace s @ (if v \<noteq> 0 then [Debug_state_write MPIR_DEBUG_ABORTING] else [])"
  "MPIR_debug_state (note_abort who v s) =
     (if v \<noteq> 0 then MPIR_DEBUG_ABORTING else MPIR_debug_state s)"
  "MPIR_debug_abort_string (note_abort who v s) =
     (if v \<noteq> 0 \<and> MPIR_debug_abort_string s = None
      then Some (''The '' @ who @ '' exited with return code '' @ string_of_int v)
      else MPIR_debug_abort_string s)"
  "flag c (note_abort who v s) = flag c s"
  "launcher_exit_code (note_abort who v s) = launcher_exit_code s"
  "launcher_terminated (note_abort who v s) = launcher_terminated s"
  by (simp_all add: note_abort_def set_debug_state_def Let_def emit_def flag_def
      split: cond_id.splits)

lemma fold_launcher_terminate_trace:
  "trace (fold launcher_terminate_item info s) =
     trace s @ map (\<lambda>v. Debug_state_write MPIR_DEBUG_ABORTING) (abort_codes info)"
  by (induction info arbitrary: s rule: reported_codes.induct)
     (simp_all add: note_abort_fields abort_codes_def)

lemma fold_launcher_terminate_state:
  "MPIR_debug_state (fold launcher_terminate_item info s) =
     (if abort_codes info \<noteq> [] then MPIR_DEBUG_ABORTING else MPIR_debug_state s)"
  by (induction info arbitrary: s rule: reported_codes.induct)
     (simp_all add: note_abort_fields abort_codes_def)

lemma fold_launcher_terminate_string:
  "MPIR_debug_abort_string (fold launcher_terminate_item info s) =
     (case MPIR_debug_abort_string s of
        Some a \<Rightarrow> Some a
      | None \<Rightarrow> (case abort_codes info of [] \<Rightarrow> None
                 | v # _ \<Rightarrow> Some (''The launcher exited with return code '' @ string_of_int v)))"
  by (induction info arbitrary: s rule: reported_codes.induct)
     (simp_all add: note_abort_fields abort_codes_def split: option.splits)

lemma fold_launcher_terminate_flag: "flag c (fold launcher_terminate_item info s) = flag c s"
  by (induction info arbitrary: s rule: reported_codes.induct)
     (simp_all add: note_abort_fields)

lemma fold_launcher_terminate_code:
  "launcher_exit_code (fold launcher_terminate_item info s) =
     (if reported_codes info = [] then launcher_exit_code s else last (reported_codes info))"
  by (induction info arbitrary: s rule: reported_codes.induct)
     (simp_all add: note_abort_fields)

text \<open>
  C4. When the info items of the event carry a non-zero \<open>PMIX_EXIT_CODE\<close> or
  \<open>PMIX_JOB_TERM_STATUS\<close>, \<open>launcher_terminate_handler\<close> leaves \<open>MPIR_debug_state\<close>
  at ABORTING; it keeps an abort string that was already set and otherwise sets it to
  "The launcher exited with return code" followed by the first non-zero code; it sets
  \<open>launcher_terminated\<close> to 1 and \<open>launcher_exit_code\<close> to the last code reported; it
  broadcasts \<open>launch_term_cond\<close> and then every other condition that is still armed, so
  that no condition stays armed; and at the end it calls the continuation when there is
  one.
\<close>
theorem launcher_terminate_handler_abort:
  assumes "\<exists>v \<in> set (reported_codes info). v \<noteq> 0"
  shows "MPIR_debug_state (launcher_terminate_handler info cbfunc s) = MPIR_DEBUG_ABORTING \<and>
     MPIR_debug_abort_string (launcher_terminate_handler info cbfunc s) =
       (case MPIR_debug_abort_string s of
          Some a \<Rightarrow> Some a
        | None \<Rightarrow> Some (''The launcher exited with return code '' @
                          string_of_int (hd (abort_codes info)))) \<and>
     launcher_terminated (launcher_terminate_handler info cbfunc s) = 1 \<and>
     launcher_exit_code (launcher_terminate_handler info cbfunc s) = last (reported_codes info) \<and>
     (\<forall>c. flag c (launcher_terminate_handler info cbfunc s) \<noteq> 1) \<and>
     trace (launcher_terminate_handler info cbfunc s) =
       trace s @ map (\<lambda>v. Debug_state_write MPIR_DEBUG_ABORTING) (abort_codes info)
         @ [Cond_broadcast launch_term_cond]
         @ map Cond_broadcast
             (armed s [registration_cond, ready_for_debug_cond, launch_complete_cond])
         @ (if cbfunc then [Event_action_complete] else [])"
proof -
  from assms have ne: "abort_codes info \<noteq> []"
    by (auto simp: abort_codes_def filter_empty_conv)
  then obtain v vs where vs: "abort_codes info = v # vs"
    by (cases "abort_codes info") auto
  from assms have ne2: "reported_codes info \<noteq> []" by auto
  have "MPIR_debug_state (launcher_terminate_handler info cbfunc s) = MPIR_DEBUG_ABORTING"
    using ne by (simp add: launcher_terminate_handler_def Let_def post_condition_def
        fold_launcher_terminate_state)
  moreover have "MPIR_debug_abort_string (launcher_terminate_handler info cbfunc s) =
       (case MPIR_debug_abort_string s of
          Some a \<Rightarrow> Some a
        | None \<Rightarrow> Some (''The launcher exited with return code '' @
                          string_of_int (hd (abort_codes info))))"
    using vs by (simp add: launcher_terminate_handler_def Let_def post_condition_def
        fold_launcher_terminate_string split: option.splits)
  moreover have "launcher_terminated (launcher_terminate_handler info cbfunc s) = 1"
    by (simp add: launcher_terminate_handler_def Let_def post_condition_def)
  moreover have "launcher_exit_code (launcher_terminate_handler info cbfunc s) =
       last (reported_codes info)"
    using ne2 by (simp add: launcher_terminate_handler_def Let_def post_condition_def
        fold_launcher_terminate_code)
  moreover have "\<forall>c. flag c (launcher_terminate_handler info cbfunc s) \<noteq> 1"
    by (simp add: launcher_terminate_handler_def Let_def release_conditions_flag)
  moreover have "trace (launcher_terminate_handler info cbfunc s) =
       trace s @ map (\<lambda>v. Debug_state_write MPIR_DEBUG_ABORTING) (abort_codes info)
         @ [Cond_broadcast launch_term_cond]
         @ map Cond_broadcast
             (armed s [registration_cond, ready_for_debug_cond, launch_complete_cond])
         @ (if cbfunc then [Event_action_complete] else [])"
    by (simp add: launcher_terminate_handler_def Let_def post_condition_def
        release_conditions_trace fold_launcher_terminate_trace armed_def
        fold_launcher_terminate_flag)
  ultimately show ?thesis by blast
qed

theorem launcher_terminate_handler_abort_witness:
  "MPIR_debug_state (launcher_terminate_handler
      [Info_event_affected_proc None, Info_exit_code 42] True initial_state) = MPIR_DEBUG_ABORTING \<and>
   MPIR_debug_abort_string (launcher_terminate_handler
      [Info_event_affected_proc None, Info_exit_code 42] True initial_state) =
     Some ''The launcher exited with return code 42'' \<and>
   launcher_terminated (launcher_terminate_handler
      [Info_event_affected_proc None, Info_exit_code 42] True initial_state) = 1 \<and>
   launcher_exit_code (launcher_terminate_handler
      [Info_event_affected_proc None, Info_exit_code 42] True initial_state) = 42 \<and>
   trace (launcher_terminate_handler
      [Info_event_affected_proc None, Info_exit_code 42] True initial_state) =
     [Debug_state_write MPIR_DEBUG_ABORTING, Cond_broadcast launch_term_cond,
      Cond_broadcast registration_cond, Cond_broadcast ready_for_debug_cond,
      Cond_broadcast launch_complete_cond, Event_action_complete]"
  using launcher_terminate_handler_abort
      [of "[Info_event_affected_proc None, Info_exit_code 42]" True initial_state]
  by (simp add: abort_codes_def armed_def flag_def initial_state_def string_of_int_def
      string_of_nat.simps digit_char_def)




section \<open>Theorems: the proctable\<close>

text \<open>The two integer conversions, where they keep the value.\<close>
lemma sint_small: "unat (w :: 32 word) < 2 ^ 31 \<Longrightarrow> sint w = int (unat w)"
proof -
  assume a: "unat w < 2 ^ 31"
  then have "unat w < 2147483648" by simp
  then have "int (unat w) < 2147483648" by linarith
  then have lt: "uint w < 2 ^ 31" by simp
  have "(0::int) \<le> uint w" by simp
  then have "- 2147483648 \<le> uint w" by linarith
  then have ge: "- (2 ^ 31) \<le> uint w" by simp
  have "signed_take_bit 31 (uint w) = uint w"
    using ge lt by (rule signed_take_bit_int_eq_self)
  then show ?thesis by (simp add: sint_uint)
qed

lemma size_small: "n < 2 ^ 31 \<Longrightarrow> sint (word_of_nat n :: 32 word) = int n"
proof -
  assume a: "n < 2 ^ 31"
  then have "unat (word_of_nat n :: 32 word) = n"
    by (simp add: unat_of_nat)
  with a show ?thesis using sint_small [of "word_of_nat n"] by simp
qed

lemma sint_nonneg: "0 \<le> sint (w :: 32 word) \<Longrightarrow> sint w = int (unat w)"
proof -
  assume a: "0 \<le> sint w"
  have b: "sint w < 2 ^ 32" using sint_less [of w] by simp
  have "w = word_of_int (sint w)" by simp
  then have "uint w = uint (word_of_int (sint w) :: 32 word)" by simp
  also have "\<dots> = sint w mod 2 ^ 32" by (simp only: uint_word_of_int) simp
  also have "\<dots> = sint w" using a b by simp
  finally show ?thesis by simp
qed

lemma store_procdesc_eq:
  assumes "length t < 2 ^ 31"
  shows "store_procdesc p t =
     (if rank_index p < length t \<and> strings_present p then Some (place p t) else None)"
proof (cases "0 \<le> sint (rank (proc p))")
  case True
  then have eq: "sint (rank (proc p)) = int (rank_index p)"
    by (simp only: rank_index_def sint_nonneg)
  show ?thesis
    by (auto simp add: store_procdesc_def Let_def eq place_def procdesc_of_def strings_present_def
        split: option.splits)
next
  case False
  have "\<not> rank_index p < length t"
  proof
    assume "rank_index p < length t"
    with assms have "unat (rank (proc p)) < 2 ^ 31" by (simp add: rank_index_def)
    then have "sint (rank (proc p)) = int (unat (rank (proc p)))" by (rule sint_small)
    with False show False by simp
  qed
  with False show ?thesis
    by (simp add: store_procdesc_def Let_def)
qed

lemma length_place [simp]: "length (place p t) = length t"
  by (simp add: place_def)

lemma length_fold_place [simp]: "length (fold place ps t) = length t"
  by (induction ps arbitrary: t) simp_all

lemma proctable_loop_eq:
  "length t < 2 ^ 31 \<Longrightarrow>
   proctable_loop ps t =
     (if \<forall>p\<in>set ps. rank_index p < length t \<and> strings_present p
      then Some (fold place ps t) else None)"
proof (induction ps arbitrary: t)
  case Nil
  then show ?case by simp
next
  case (Cons p ps)
  show ?case
  proof (cases "rank_index p < length t \<and> strings_present p")
    case True
    with Cons.prems have "store_procdesc p t = Some (place p t)"
      by (simp add: store_procdesc_eq)
    moreover have "length (place p t) < 2 ^ 31" using Cons.prems by simp
    ultimately show ?thesis using True Cons.IH [of "place p t"] by simp
  next
    case False
    with Cons.prems have "store_procdesc p t = None"
      by (simp add: store_procdesc_eq)
    with False show ?thesis by auto
  qed
qed

lemma fold_place_other:
  "i \<notin> rank_index ` set ps \<Longrightarrow> fold place ps t ! i = t ! i"
  by (induction ps arbitrary: t) (auto simp: place_def)

lemma fold_place_at:
  "distinct (map rank_index ps) \<Longrightarrow> p \<in> set ps \<Longrightarrow> rank_index p < length t \<Longrightarrow>
   fold place ps t ! rank_index p = Some (procdesc_of p)"
proof (induction ps arbitrary: t)
  case Nil
  then show ?case by simp
next
  case (Cons q ps)
  show ?case
  proof (cases "p \<in> set ps")
    case True
    with Cons show ?thesis by simp
  next
    case False
    with Cons.prems have pq: "p = q" and "rank_index q \<notin> rank_index ` set ps" by auto
    then have "fold place ps (place q t) ! rank_index q = place q t ! rank_index q"
      by (simp add: fold_place_other)
    moreover have "place q t ! rank_index q = Some (procdesc_of q)"
      using Cons.prems pq by (simp add: place_def)
    ultimately show ?thesis using pq by simp
  qed
qed

lemma ranks_exact_distinct: "ranks_exact recs \<Longrightarrow> distinct (map rank_index recs)"
proof -
  assume "ranks_exact recs"
  then have "card (set (map rank_index recs)) = length (map rank_index recs)"
    by (simp add: ranks_exact_def)
  then show ?thesis by (rule card_distinct)
qed

lemma proctable_size_small: "length recs < 2 ^ 31 \<Longrightarrow> proctable_size_of recs = int (length recs)"
  by (simp add: proctable_size_of_def size_small)

lemma materialise_proctable_eq:
  assumes "length recs < 2 ^ 31"
  shows "materialise_proctable recs =
     (if \<forall>p\<in>set recs. rank_index p < length recs \<and> strings_present p
      then Some (Some (fold place recs (replicate (length recs) None))) else None)"
  using assms
  by (simp add: materialise_proctable_def proctable_size_small malloc_proctable_def
      proctable_loop_eq Let_def)

lemma filled_only_by_ranks:
  assumes "None \<notin> set (fold place recs (replicate n None))" and "i < n"
  shows "i \<in> rank_index ` set recs"
proof (rule ccontr)
  assume "i \<notin> rank_index ` set recs"
  then have "fold place recs (replicate n None) ! i = replicate n None ! i"
    by (rule fold_place_other)
  with \<open>i < n\<close> have "fold place recs (replicate n None) ! i = None" by simp
  moreover have "i < length (fold place recs (replicate n None))" using \<open>i < n\<close> by simp
  ultimately have "None \<in> set (fold place recs (replicate n None))"
    by (metis nth_mem)
  with assms(1) show False by simp
qed

lemma materialise_well_defined_iff:
  assumes "length recs < 2 ^ 31"
  shows "(\<exists>t. materialise_proctable recs = Some (Some t) \<and> None \<notin> set t) \<longleftrightarrow>
         (ranks_exact recs \<and> (\<forall>p\<in>set recs. strings_present p))"
proof
  assume "\<exists>t. materialise_proctable recs = Some (Some t) \<and> None \<notin> set t"
  then obtain t where t: "materialise_proctable recs = Some (Some t)" and full: "None \<notin> set t"
    by blast
  from t assms have ok: "\<forall>p\<in>set recs. rank_index p < length recs \<and> strings_present p"
    and teq: "t = fold place recs (replicate (length recs) None)"
    by (auto simp: materialise_proctable_eq split: if_splits)
  have "rank_index ` set recs = {0..<length recs}"
  proof
    show "rank_index ` set recs \<subseteq> {0..<length recs}" using ok by auto
    show "{0..<length recs} \<subseteq> rank_index ` set recs"
      using full teq filled_only_by_ranks by auto
  qed
  with ok show "ranks_exact recs \<and> (\<forall>p\<in>set recs. strings_present p)"
    by (simp add: ranks_exact_def)
next
  assume a: "ranks_exact recs \<and> (\<forall>p\<in>set recs. strings_present p)"
  then have inr: "\<forall>p\<in>set recs. rank_index p < length recs"
    by (auto simp: ranks_exact_def)
  let ?t = "fold place recs (replicate (length recs) None)"
  have m: "materialise_proctable recs = Some (Some ?t)"
    using a inr assms by (simp add: materialise_proctable_eq)
  have "None \<notin> set ?t"
  proof
    assume "None \<in> set ?t"
    then obtain i where i: "i < length ?t" and n: "?t ! i = None"
      by (auto simp: in_set_conv_nth)
    then have "i \<in> rank_index ` set recs" using a by (simp add: ranks_exact_def)
    then obtain p where p: "p \<in> set recs" and ip: "i = rank_index p" by auto
    have "?t ! rank_index p = Some (procdesc_of p)"
      using a p inr by (intro fold_place_at ranks_exact_distinct) auto
    with n ip show False by simp
  qed
  with m show "\<exists>t. materialise_proctable recs = Some (Some t) \<and> None \<notin> set t" by blast
qed

lemma calls_so_far_emit [simp]:
  "calls_so_far api (emit e s) = calls_so_far api s + (if e = Pmix_call api then 1 else 0)"
  by (simp add: calls_so_far_def emit_def)

lemma pmix_proc_table_to_mpir_response:
  "proctable_response env s = Some recs \<Longrightarrow>
   pmix_proc_table_to_mpir env s =
     build_proctable recs (emit (Pmix_call PMIx_Query_info) (emit (Pmix_call PMIx_Argv_append) s))"
  by (auto simp: proctable_response_def pmix_proc_table_to_mpir_def pmix_call_def Let_def
      split: if_splits list.splits pmix_value_t.splits option.splits)

lemma build_proctable_eq:
  "build_proctable recs s =
     (case materialise_proctable recs of
        None \<Rightarrow> (Undefined_behaviour, s\<lparr>MPIR_proctable_size := proctable_size_of recs\<rparr>)
      | Some tab \<Rightarrow>
          (Returns 0,
           s\<lparr>MPIR_proctable_size := proctable_size_of recs, MPIR_proctable := tab,
             MPIR_debug_state := MPIR_DEBUG_SPAWNED,
             trace := trace s @ [Debug_state_write MPIR_DEBUG_SPAWNED,
               Breakpoint_hit MPIR_DEBUG_SPAWNED tab (proctable_size_of recs)]\<rparr>))"
  by (simp add: build_proctable_def Let_def set_debug_state_def MPIR_Breakpoint_def emit_def
      split: option.splits)

text \<open>Among no callbacks, the function is the one of the driver thread alone.\<close>
lemma pmix_proc_table_to_mpir_alone:
  "pmix_proc_table_to_mpir_among (\<lambda>s. (Returns (), s)) env s = pmix_proc_table_to_mpir env s"
  "pmix_proc_table_to_mpir_among (handle_events env []) env s = pmix_proc_table_to_mpir env s"
proof -
  have eq: "build_proctable_among (\<lambda>s. (Returns (), s)) = build_proctable"
    by (intro ext)
       (simp add: build_proctable_among_def build_proctable_def and_then_def Let_def
          split: option.splits)
  show 1: "pmix_proc_table_to_mpir_among (\<lambda>s. (Returns (), s)) env s =
      pmix_proc_table_to_mpir env s"
    unfolding pmix_proc_table_to_mpir_among_def pmix_proc_table_to_mpir_def eq ..
  have "handle_events env [] = (\<lambda>s. (Returns (), s))" by (rule ext) simp
  with 1 show "pmix_proc_table_to_mpir_among (handle_events env []) env s =
      pmix_proc_table_to_mpir env s"
    by simp
qed

lemma proctable_exact:
  assumes "proctable_response env s = Some recs" and "length recs < 2 ^ 31"
    and "ranks_exact recs" and "\<forall>p\<in>set recs. strings_present p"
  shows "pmix_proc_table_to_mpir env s =
     (Returns 0,
      s\<lparr>MPIR_proctable_size := int (length recs),
        MPIR_proctable := Some (fold place recs (replicate (length recs) None)),
        MPIR_debug_state := MPIR_DEBUG_SPAWNED,
        trace := trace s @ [Pmix_call PMIx_Argv_append, Pmix_call PMIx_Query_info,
          Debug_state_write MPIR_DEBUG_SPAWNED,
          Breakpoint_hit MPIR_DEBUG_SPAWNED
            (Some (fold place recs (replicate (length recs) None))) (int (length recs))]\<rparr>)"
proof -
  from assms(3) have "\<forall>p\<in>set recs. rank_index p < length recs"
    by (auto simp: ranks_exact_def)
  with assms(2,4) have "materialise_proctable recs =
      Some (Some (fold place recs (replicate (length recs) None)))"
    by (simp add: materialise_proctable_eq)
  with assms(1,2) show ?thesis
    by (simp add: pmix_proc_table_to_mpir_response build_proctable_eq proctable_size_small emit_def)
qed

lemma table_entries:
  assumes "ranks_exact recs" and "\<forall>p\<in>set recs. strings_present p"
  shows "\<forall>p\<in>set recs. fold place recs (replicate (length recs) None) ! rank_index p = Some (procdesc_of p)"
    and "\<forall>i<length recs. \<exists>e. fold place recs (replicate (length recs) None) ! i = Some e \<and>
           host_name e \<noteq> None \<and> executable_name e \<noteq> None"
proof -
  let ?t = "fold place recs (replicate (length recs) None)"
  have inr: "\<forall>p\<in>set recs. rank_index p < length recs"
    using assms(1) by (auto simp: ranks_exact_def)
  show at: "\<forall>p\<in>set recs. ?t ! rank_index p = Some (procdesc_of p)"
    using assms(1) inr by (auto intro!: fold_place_at ranks_exact_distinct)
  show "\<forall>i<length recs. \<exists>e. ?t ! i = Some e \<and> host_name e \<noteq> None \<and> executable_name e \<noteq> None"
  proof (intro allI impI)
    fix i assume "i < length recs"
    then have "i \<in> rank_index ` set recs" using assms(1) by (simp add: ranks_exact_def)
    then obtain p where p: "p \<in> set recs" and ip: "i = rank_index p" by auto
    with at have "?t ! i = Some (procdesc_of p)" by simp
    moreover have "host_name (procdesc_of p) \<noteq> None \<and> executable_name (procdesc_of p) \<noteq> None"
      using assms(2) p by (simp add: procdesc_of_def strings_present_def)
    ultimately show "\<exists>e. ?t ! i = Some e \<and> host_name e \<noteq> None \<and> executable_name e \<noteq> None"
      by blast
  qed
qed

text \<open>
  C1, as the code has it. For every proctable query response of N records, N below
  \<open>2^31\<close>, whose ranks are exactly 0, ..., N-1 and whose host and executable names are
  not null, in whatever order the records arrive, \<open>pmix_proc_table_to_mpir\<close> returns 0,
  sets \<open>MPIR_proctable_size\<close> to N and leaves a table of N entries, each with a non-null
  \<open>host_name\<close> and \<open>executable_name\<close>, in which the entry at the index of a record's
  rank holds that record's pid (and copies of its two strings).
\<close>
theorem proctable_shape:
  assumes "proctable_response env s = Some recs" and "length recs < 2 ^ 31"
    and "ranks_exact recs" and "\<forall>p\<in>set recs. strings_present p"
  shows "\<exists>s' t. pmix_proc_table_to_mpir env s = (Returns 0, s') \<and>
     MPIR_proctable_size s' = int (length recs) \<and>
     MPIR_proctable s' = Some t \<and> length t = length recs \<and>
     (\<forall>i<length recs. \<exists>e. t ! i = Some e \<and> host_name e \<noteq> None \<and> executable_name e \<noteq> None) \<and>
     (\<forall>p\<in>set recs. \<exists>e. t ! rank_index p = Some e \<and> pid e = pi_pid p \<and>
        host_name e = hostname p \<and> executable_name e = pi_executable_name p)"
proof -
  let ?t = "fold place recs (replicate (length recs) None)"
  have "\<forall>p\<in>set recs. \<exists>e. ?t ! rank_index p = Some e \<and> pid e = pi_pid p \<and>
        host_name e = hostname p \<and> executable_name e = pi_executable_name p"
    using table_entries(1) [OF assms(3,4)] by (simp add: procdesc_of_def)
  with table_entries(2) [OF assms(3,4)] proctable_exact [OF assms] show ?thesis
    by simp
qed

theorem proctable_shape_witness:
  "\<exists>s'. pmix_proc_table_to_mpir (env_proctable [proc_record 1 101, proc_record 0 100]) initial_state = (Returns 0, s') \<and>
     MPIR_proctable_size s' = 2 \<and>
     MPIR_proctable s' = Some [Some \<lparr>host_name = Some ''node0'', executable_name = Some ''a.out'', pid = 100\<rparr>,
       Some \<lparr>host_name = Some ''node0'', executable_name = Some ''a.out'', pid = 101\<rparr>]"
proof -
  let ?recs = "[proc_record 1 101, proc_record 0 100]"
  have 1: "proctable_response (env_proctable ?recs) initial_state = Some ?recs"
    by (simp add: proctable_response_def env_proctable_def env_all_ok_def)
  have 2: "length ?recs < 2 ^ 31" by simp
  have 3: "ranks_exact ?recs"
    by (auto simp: ranks_exact_def rank_index_def proc_record_def)
  have 4: "\<forall>p\<in>set ?recs. strings_present p"
    by (simp add: strings_present_def proc_record_def)
  from proctable_shape [OF 1 2 3 4] show ?thesis
    by (auto simp: rank_index_def proc_record_def nth_Cons' length_Suc_conv
        intro!: nth_equalityI split: if_splits)
qed

text \<open>
  C1 as stated fails for a response whose ranks are not 0, ..., N-1: two records of rank 0
  give a table of size 2 whose entry 0 holds the pid of the second record, not of the
  first, and whose entry 1 was never written.
\<close>
theorem proctable_duplicate_rank:
  "fst (pmix_proc_table_to_mpir (env_proctable [proc_record 0 10, proc_record 0 20]) initial_state) = Returns 0 \<and>
   MPIR_proctable_size (snd (pmix_proc_table_to_mpir (env_proctable [proc_record 0 10, proc_record 0 20]) initial_state)) = 2 \<and>
   MPIR_proctable (snd (pmix_proc_table_to_mpir (env_proctable [proc_record 0 10, proc_record 0 20]) initial_state)) =
     Some [Some \<lparr>host_name = Some ''node0'', executable_name = Some ''a.out'', pid = 20\<rparr>, None]"
  by (simp add: pmix_proc_table_to_mpir_def pmix_call_def env_proctable_def env_all_ok_def
      initial_state_def calls_so_far_def emit_def build_proctable_def materialise_proctable_def
      proctable_size_of_def malloc_proctable_def store_procdesc_def proc_record_def Let_def
      set_debug_state_def MPIR_Breakpoint_def numeral_2_eq_2)

text \<open>
  C10. For a response of N records, N below \<open>2^31\<close>: when the loop stays inside the table
  and leaves every one of the N entries written, the ranks of the records are exactly
  0, ..., N-1; conversely, with such ranks and no null string the loop is well defined and
  fills the table; and a record whose rank is N or more makes the loop write outside the
  table (undefined behaviour, \<open>None\<close>), as nothing checks the index.
\<close>
theorem proctable_needs_exact_ranks:
  assumes "length recs < 2 ^ 31"
  shows "((\<exists>t. materialise_proctable recs = Some (Some t) \<and> None \<notin> set t) \<longrightarrow> ranks_exact recs) \<and>
     (ranks_exact recs \<and> (\<forall>p\<in>set recs. strings_present p) \<longrightarrow>
        (\<exists>t. materialise_proctable recs = Some (Some t) \<and> None \<notin> set t)) \<and>
     ((\<exists>p\<in>set recs. length recs \<le> rank_index p) \<longrightarrow> materialise_proctable recs = None)"
proof -
  have "(\<exists>p\<in>set recs. length recs \<le> rank_index p) \<longrightarrow> materialise_proctable recs = None"
    using assms by (auto simp: materialise_proctable_eq)
  with materialise_well_defined_iff [OF assms] show ?thesis by blast
qed

theorem proctable_needs_exact_ranks_witness:
  "ranks_exact [proc_record 1 101, proc_record 0 100] \<and>
   materialise_proctable [proc_record 1 101, proc_record 0 100] =
     Some (Some [Some \<lparr>host_name = Some ''node0'', executable_name = Some ''a.out'', pid = 100\<rparr>,
                 Some \<lparr>host_name = Some ''node0'', executable_name = Some ''a.out'', pid = 101\<rparr>]) \<and>
   materialise_proctable [proc_record 5 7] = None"
proof -
  have 1: "length [proc_record 1 101, proc_record 0 100] < 2 ^ 31" by simp
  have 2: "length [proc_record 5 7] < 2 ^ 31" by simp
  have 3: "ranks_exact [proc_record 1 101, proc_record 0 100]"
    by (auto simp: ranks_exact_def rank_index_def proc_record_def)
  have 4: "materialise_proctable [proc_record 1 101, proc_record 0 100] =
     Some (Some [Some \<lparr>host_name = Some ''node0'', executable_name = Some ''a.out'', pid = 100\<rparr>,
                 Some \<lparr>host_name = Some ''node0'', executable_name = Some ''a.out'', pid = 101\<rparr>])"
    by (simp add: materialise_proctable_def proctable_size_of_def malloc_proctable_def
        store_procdesc_def proc_record_def Let_def numeral_2_eq_2)
  from proctable_needs_exact_ranks [OF 1] proctable_needs_exact_ranks [OF 2] 3 4
  show ?thesis
    by (simp add: rank_index_def proc_record_def)
qed

section \<open>Invariants of a run\<close>

lemma debug_state_writes_append [simp]:
  "debug_state_writes (xs @ ys) = debug_state_writes xs @ debug_state_writes ys"
  by (induction xs rule: debug_state_writes.induct) simp_all

lemma follows_refl [simp]: "follows s s"
  by (simp add: follows_def)

lemma follows_trans: "follows s s1 \<Longrightarrow> follows s1 s2 \<Longrightarrow> follows s s2"
proof -
  assume "follows s s1" and "follows s1 s2"
  then obtain es fs where 1: "trace s1 = trace s @ es" "list_all effect_ok es"
      "MPIR_debug_state s1 = last (MPIR_debug_state s # debug_state_writes es)"
    and 2: "trace s2 = trace s1 @ fs" "list_all effect_ok fs"
      "MPIR_debug_state s2 = last (MPIR_debug_state s1 # debug_state_writes fs)"
    by (auto simp: follows_def)
  have "MPIR_debug_state s2 = last (MPIR_debug_state s # debug_state_writes (es @ fs))"
    using 1(3) 2(3) by (cases "debug_state_writes fs = []") (simp_all add: last_append)
  with 1 2 show ?thesis
    unfolding follows_def by (intro exI [of _ "es @ fs"]) simp
qed

lemma follows_not_null:
  assumes "follows s s'" and "MPIR_debug_state s \<noteq> MPIR_NULL"
  shows "MPIR_debug_state s' \<noteq> MPIR_NULL"
proof -
  from assms(1) obtain es where es: "list_all effect_ok es"
      "MPIR_debug_state s' = last (MPIR_debug_state s # debug_state_writes es)"
    by (auto simp: follows_def)
  have w: "\<forall>v\<in>set (debug_state_writes es). v = MPIR_DEBUG_SPAWNED \<or> v = MPIR_DEBUG_ABORTING"
    using es(1) by (induction es rule: debug_state_writes.induct) (auto simp: effect_ok_def)
  show ?thesis
  proof (cases "debug_state_writes es = []")
    case True
    with es(2) assms(2) show ?thesis by simp
  next
    case False
    then have "last (debug_state_writes es) \<in> set (debug_state_writes es)" by simp
    with w have "last (debug_state_writes es) \<noteq> MPIR_NULL"
      by (auto simp: MPIR_NULL_def MPIR_DEBUG_SPAWNED_def MPIR_DEBUG_ABORTING_def)
    with False es(2) show ?thesis by simp
  qed
qed

lemma step_rel_refl [simp]: "step_rel s s"
  by (simp add: step_rel_def)

lemma step_rel_trans: "step_rel s s1 \<Longrightarrow> step_rel s1 s2 \<Longrightarrow> step_rel s s2"
  by (auto simp: step_rel_def intro: follows_trans)

lemma step_rel_follows: "step_rel s s' \<Longrightarrow> follows s s'"
  by (simp add: step_rel_def)

lemma and_then_rel:
  assumes "\<And>x y z. R x y \<Longrightarrow> R y z \<Longrightarrow> R x z"
    and "\<And>s. R s (snd (m s))" and "\<And>a s. R s (snd (f a s))"
  shows "R s (snd (and_then m f s))"
proof (cases "m s")
  case (Pair r s1)
  then have "R s s1" using assms(2) [of s] by simp
  with Pair assms(1) assms(3) show ?thesis
    by (cases r) (auto simp: and_then_def intro: assms(1))
qed

lemma step_emit:
  "effect_ok e \<Longrightarrow> debug_state_writes [e] = [] \<Longrightarrow> step_rel s (emit e s)"
  by (simp add: step_rel_def follows_def emit_def)

lemma step_set_debug_state:
  "v = MPIR_DEBUG_SPAWNED \<or> v = MPIR_DEBUG_ABORTING \<Longrightarrow> step_rel s (set_debug_state v s)"
  by (auto simp add: step_rel_def follows_def set_debug_state_def emit_def effect_ok_def)

lemma step_pmix_call: "step_rel s (snd (pmix_call env api s))"
  by (simp add: pmix_call_def step_emit effect_ok_def)

lemma step_finalize: "step_rel s (snd (finalize_as_tool env s))"
  by (simp add: finalize_as_tool_def pmix_call_def Let_def step_rel_def follows_def emit_def effect_ok_def)

lemma step_exit_handler: "step_rel s (snd (exit_handler env s))"
proof -
  let ?s1 = "snd (finalize_as_tool env s)"
  have A: "step_rel s ?s1" by (rule step_finalize)
  have "step_rel ?s1 (emit Proctable_freed ?s1)"
    by (simp add: step_emit effect_ok_def)
  with A have B: "step_rel s (emit Proctable_freed ?s1)" by (rule step_rel_trans)
  show ?thesis
    using A B by (simp add: exit_handler_def Let_def split: option.splits)
qed

lemma step_c_exit: "step_rel s (snd (c_exit env n s))"
  using step_exit_handler [of s env]
  by (cases "exit_handler env s"; cases "fst (exit_handler env s)") (simp_all add: c_exit_def)

lemma step_fatal: "step_rel s (snd (pmix_fatal_error env s))"
  unfolding pmix_fatal_error_def
  by (rule step_rel_trans [OF step_finalize step_c_exit])

lemma step_set_flag: "step_rel s (set_flag c v s)"
  by (cases c) (simp_all add: set_flag_def step_rel_def follows_def)

lemma step_post: "step_rel s (post_condition c s)"
proof -
  have "step_rel s (emit (Cond_broadcast c) s)"
    by (simp add: step_emit effect_ok_def)
  then show ?thesis
    unfolding post_condition_def by (rule step_rel_trans) (rule step_set_flag)
qed

lemma step_release_one: "step_rel s (release_one c s)"
  using step_post [of s c] by (simp add: release_one_def post_condition_def)

lemma step_release: "step_rel s (release_conditions s)"
  unfolding release_conditions_def
  by (rule step_rel_trans [OF step_release_one], rule step_rel_trans [OF step_release_one],
      rule step_rel_trans [OF step_release_one], rule step_release_one)

lemma step_cbfunc: "step_rel s (call_cbfunc b s)"
  by (simp add: call_cbfunc_def step_emit effect_ok_def)

lemma step_field_updates [simp]:
  "step_rel s (s\<lparr>launcher_exit_code := a\<rparr>)"
  "step_rel s (s\<lparr>app_exit_code := a\<rparr>)"
  "step_rel s (s\<lparr>launcher_terminated := a\<rparr>)"
  "step_rel s (s\<lparr>app_terminated := a, launcher_terminated := b\<rparr>)"
  "step_rel s (s\<lparr>MPIR_debug_abort_string := x\<rparr>)"
  "step_rel s (s\<lparr>session_count := a\<rparr>)"
  "step_rel s (s\<lparr>callback_reg_status := st\<rparr>)"
  "step_rel s (s\<lparr>callback_reg_status := st, callback_reg_id := i\<rparr>)"
  "step_rel s (s\<lparr>application_proc := p\<rparr>)"
  "step_rel s (s\<lparr>launcher_proc := p\<rparr>)"
  "step_rel s (s\<lparr>launcher_namespace := ns\<rparr>)"
  "step_rel s (s\<lparr>launcher_proc := p, launcher_namespace := ns\<rparr>)"
  "step_rel s (s\<lparr>launcher_namespace := ns, launcher_proc := p\<rparr>)"
  "step_rel s (s\<lparr>pmix_initialized := a\<rparr>)"
  "step_rel s (s\<lparr>atexit_registered := bb\<rparr>)"
  "step_rel s (s\<lparr>default_cb_id := j\<rparr>)"
  "step_rel s (s\<lparr>launch_complete_cb_id := j\<rparr>)"
  "step_rel s (s\<lparr>launch_ready_cb_id := j\<rparr>)"
  "step_rel s (s\<lparr>launcher_terminate_cb_id := j\<rparr>)"
  "step_rel s (s\<lparr>app_terminate_cb_id := j\<rparr>)"
  "step_rel s (s\<lparr>MPIR_proctable_size := a\<rparr>)"
  "step_rel s (s\<lparr>MPIR_proctable := t\<rparr>)"
  by (simp_all add: step_rel_def follows_def)

lemma step_note_abort: "step_rel s (note_abort who v s)"
proof -
  let ?s1 = "set_debug_state MPIR_DEBUG_ABORTING s"
  have A: "step_rel s ?s1" by (simp add: step_set_debug_state)
  have B: "step_rel s (?s1\<lparr>MPIR_debug_abort_string := x\<rparr>)" for x
    by (rule step_rel_trans [OF A]) simp
  show ?thesis
    using A B by (simp add: note_abort_def Let_def)
qed

lemma step_lt_item: "step_rel s (launcher_terminate_item i s)"
proof -
  have "step_rel s (note_abort ''launcher'' v (s\<lparr>launcher_exit_code := v\<rparr>))" for v
    by (rule step_rel_trans [OF _ step_note_abort]) simp
  then show ?thesis by (cases i) simp_all
qed

lemma step_at_item: "step_rel s (application_terminate_item i s)"
proof -
  have "step_rel s (note_abort ''application'' v (s\<lparr>app_exit_code := v\<rparr>))" for v
    by (rule step_rel_trans [OF _ step_note_abort]) simp
  then show ?thesis by (cases i) simp_all
qed

lemma step_fold:
  assumes "\<And>i s. step_rel s (f i s)"
  shows "step_rel s (fold f info s)"
proof (induction info arbitrary: s)
  case Nil
  show ?case by simp
next
  case (Cons i info)
  have "step_rel s (f i s)" by (rule assms)
  then show ?case
    using Cons.IH [of "f i s"] by (simp add: step_rel_trans)
qed

lemma step_terminate_tail:
  "step_rel s (call_cbfunc b (release_conditions (post_condition c s)))"
  by (rule step_rel_trans [OF step_post], rule step_rel_trans [OF step_release], rule step_cbfunc)

lemma step_launcher_terminate: "step_rel s (launcher_terminate_handler info b s)"
proof -
  let ?s1 = "fold launcher_terminate_item info s"
  have "step_rel s ?s1" by (rule step_fold) (rule step_lt_item)
  also have "step_rel ?s1 (?s1\<lparr>launcher_terminated := 1\<rparr>)" by simp
  finally (step_rel_trans) show ?thesis
    unfolding launcher_terminate_handler_def Let_def
    by (rule step_rel_trans) (rule step_terminate_tail)
qed

lemma step_application_terminate: "step_rel s (application_terminate_handler info b s)"
proof -
  let ?s1 = "fold application_terminate_item info s"
  have "step_rel s ?s1" by (rule step_fold) (rule step_at_item)
  also have "step_rel ?s1 (?s1\<lparr>app_terminated := 1, launcher_terminated := 2\<rparr>)" by simp
  finally (step_rel_trans) show ?thesis
    unfolding application_terminate_handler_def Let_def
    by (rule step_rel_trans) (rule step_terminate_tail)
qed

lemma step_launcher_ready: "step_rel s (launcher_ready_handler st b s)"
  unfolding launcher_ready_handler_def
  by (rule step_rel_trans [OF step_field_updates(7)], rule step_rel_trans [OF step_post],
      rule step_cbfunc)

lemma step_registration_complete: "step_rel s (registration_complete_handler st i s)"
  unfolding registration_complete_handler_def
  by (rule step_rel_trans [OF step_field_updates(8)], rule step_post)

lemma step_default: "step_rel s (snd (default_event_handler st b s))"
proof -
  have "step_rel s (call_cbfunc b (s\<lparr>session_count := session_count s - 1\<rparr>))"
    by (rule step_rel_trans [OF step_field_updates(6)], rule step_cbfunc)
  then show ?thesis
    by (simp add: default_event_handler_def c__exit_def step_release step_cbfunc)
qed

lemma step_launcher_complete: "step_rel s (snd (launcher_complete_handler env info b s))"
proof -
  have "step_rel s (call_cbfunc b (post_condition launch_complete_cond
          (s\<lparr>application_proc := p\<rparr>)))" for p
    by (rule step_rel_trans [OF step_field_updates(9)], rule step_rel_trans [OF step_post],
        rule step_cbfunc)
  then show ?thesis
    by (simp add: launcher_complete_handler_def Let_def step_fatal split: option.splits)
qed

lemma step_handle_event: "step_rel s (snd (handle_event env e s))"
  by (cases e) (simp_all add: step_registration_complete step_default step_launcher_complete
      step_launcher_ready step_launcher_terminate step_application_terminate)

lemma step_handle_events: "step_rel s (snd (handle_events env es s))"
proof (induction es arbitrary: s)
  case Nil
  then show ?case by simp
next
  case (Cons e es)
  obtain r s1 where r: "handle_event env e s = (r, s1)" by (cases "handle_event env e s")
  then have 1: "step_rel s s1" using step_handle_event [of s env e] by simp
  have 2: "step_rel s (snd (handle_events env es s1))"
    by (rule step_rel_trans [OF 1 Cons.IH])
  show ?case
    using r 1 2 by (cases r) simp_all
qed

lemma step_wait: "step_rel s (snd (wait_for_condition env c s))"
proof -
  let ?s0 = "emit (Cond_wait c) s"
  have 0: "step_rel s ?s0" by (simp add: step_emit effect_ok_def)
  obtain r s1 where r: "handle_events env (events env (waits_so_far s)) ?s0 = (r, s1)"
    by (cases "handle_events env (events env (waits_so_far s)) ?s0")
  then have 1: "step_rel ?s0 s1"
    using step_handle_events [of ?s0 env "events env (waits_so_far s)"] by simp
  have 2: "step_rel s s1" by (rule step_rel_trans [OF 0 1])
  have 3: "step_rel s (set_flag c 1 s1)" by (rule step_rel_trans [OF 2 step_set_flag])
  show ?thesis
    using r 2 3 by (cases r) (simp_all add: wait_for_condition_def)
qed

lemma step_and_then:
  assumes "\<And>s. step_rel s (snd (m s))" and "\<And>a s. step_rel s (snd (f a s))"
  shows "step_rel s (snd (and_then m f s))"
proof (cases "m s")
  case (Pair r s1)
  then have 1: "step_rel s s1" using assms(1) [of s] by simp
  have 2: "step_rel s (snd (f a s1))" for a
    by (rule step_rel_trans [OF 1 assms(2)])
  show ?thesis
    using Pair 1 2 by (cases r) (simp_all add: and_then_def)
qed

lemma step_on_success:
  assumes "\<And>s. step_rel s (snd (f s))" and "\<And>s. step_rel s (snd (rest s))"
  shows "step_rel s (snd (on_success f rest s))"
  unfolding on_success_def
  by (rule step_and_then) (simp_all add: assms)

lemma step_pmix_must_succeed: "step_rel s (snd (pmix_must_succeed env api s))"
  using step_pmix_call [of s env api]
  by (simp add: pmix_must_succeed_def Let_def case_prod_beta)

lemma step_pmix_may_succeed: "step_rel s (snd (pmix_may_succeed_at_once env api s))"
  using step_pmix_call [of s env api]
  by (simp add: pmix_may_succeed_at_once_def Let_def case_prod_beta)

lemma step_setup_signal_handlers: "step_rel s (snd (setup_signal_handlers env s))"
  by (simp add: setup_signal_handlers_def)

lemma step_install_exit_handler: "step_rel s (snd (install_exit_handler env s))"
  by (simp add: install_exit_handler_def)

lemma step_query_launcher_namespace: "step_rel s (snd (query_launcher_namespace env s))"
proof -
  let ?s1 = "snd (pmix_call env PMIx_Get s)"
  let ?s2 = "snd (pmix_call env PMIx_Get ?s1)"
  have 1: "step_rel s ?s1" by (rule step_pmix_call)
  have 2: "step_rel s ?s2" by (rule step_rel_trans [OF 1 step_pmix_call])
  have f1: "step_rel s (snd (pmix_fatal_error env ?s1))"
    by (rule step_rel_trans [OF 1 step_fatal])
  have f2: "step_rel s (snd (pmix_fatal_error env ?s2))"
    by (rule step_rel_trans [OF 2 step_fatal])
  have 3: "step_rel s (?s2\<lparr>launcher_proc := p\<rparr>)" for p
    by (rule step_rel_trans [OF 2]) simp
  have f3: "step_rel s (snd (pmix_fatal_error env (?s2\<lparr>launcher_proc := p\<rparr>)))" for p
    by (rule step_rel_trans [OF 3 step_fatal])
  show ?thesis
    using f1 f2 3 f3
    by (auto simp add: query_launcher_namespace_def Let_def case_prod_beta
        split: option.splits pmix_value_t.splits)
qed

lemma step_initialize_as_tool: "step_rel s (snd (initialize_as_tool env s))"
proof -
  have a: "step_rel x (snd (and_then
              (if mpir_mode s = MPIR_SHIM_ATTACH_MODE then query_launcher_namespace env
               else (\<lambda>s2. (Returns STATUS_OK, s2)))
              (\<lambda>st s3. (Returns STATUS_OK, s3\<lparr>pmix_initialized := pmix_initialized s3 + 1\<rparr>)) x))" for x
    by (rule step_and_then) (simp_all add: step_query_launcher_namespace)
  have b: "step_rel x (snd (on_success (pmix_must_succeed env PMIx_tool_init)
           (and_then
              (if mpir_mode s = MPIR_SHIM_ATTACH_MODE then query_launcher_namespace env
               else (\<lambda>s2. (Returns STATUS_OK, s2)))
              (\<lambda>st s3. (Returns STATUS_OK, s3\<lparr>pmix_initialized := pmix_initialized s3 + 1\<rparr>))) x))" for x
    by (rule step_on_success) (rule step_pmix_must_succeed, rule a)
  have c: "step_rel s (s\<lparr>session_count := 1\<rparr>)" by simp
  show ?thesis
    unfolding initialize_as_tool_def Let_def
    using b [of s] step_rel_trans [OF c b [of "s\<lparr>session_count := 1\<rparr>"]]
    by (simp split: if_splits)
qed

lemma step_register_handler:
  assumes "\<And>i s. step_rel s (store_id i s)"
  shows "step_rel s (snd (register_handler env store_id s))"
  unfolding register_handler_def
  by (rule step_rel_trans [OF step_pmix_call], rule step_and_then)
     (simp_all add: step_wait assms)

lemma step_register_handlers:
  "step_rel s (snd (register_default_event_handler env s))"
  "step_rel s (snd (register_launcher_complete_handler env s))"
  "step_rel s (snd (register_launcher_ready_handler env s))"
  "step_rel s (snd (register_launcher_terminate_handler env s))"
  "step_rel s (snd (register_application_terminate_handler env s))"
  unfolding register_default_event_handler_def register_launcher_complete_handler_def
    register_launcher_ready_handler_def register_launcher_terminate_handler_def
    register_application_terminate_handler_def
  by (rule step_register_handler, simp)+

lemma step_argv_append_all: "step_rel s (snd (argv_append_all env args s))"
proof (induction args arbitrary: s)
  case Nil
  show ?case by simp
next
  case (Cons a args)
  let ?s1 = "snd (pmix_call env PMIx_Argv_append s)"
  have 1: "step_rel s ?s1" by (rule step_pmix_call)
  have 2: "step_rel s (snd (argv_append_all env args ?s1))"
    by (rule step_rel_trans [OF 1 Cons.IH])
  show ?case
    using 1 2 by (cases a) (simp_all add: Let_def case_prod_beta)
qed

lemma step_export_rendezvous_uri: "step_rel s (snd (export_rendezvous_uri env s))"
proof -
  let ?s1 = "snd (pmix_call env PMIx_Get s)"
  have 1: "step_rel s ?s1" by (rule step_pmix_call)
  have 2: "step_rel s (snd (pmix_must_succeed env PMIx_Setenv ?s1))"
    by (rule step_rel_trans [OF 1 step_pmix_must_succeed])
  show ?thesis
    using 1 2
    by (simp add: export_rendezvous_uri_def Let_def case_prod_beta
        split: option.splits pmix_value_t.splits)
qed

lemma step_spawn_call: "step_rel s (snd (spawn_call env s))"
  unfolding spawn_call_def
  by (rule step_on_success) (simp_all add: step_pmix_may_succeed)

lemma step_spawn: "step_rel s (snd (spawn_launcher_and_application env s))"
proof -
  let ?s1 = "s\<lparr>launcher_namespace := [],
                 launcher_proc := \<lparr>nspace = [], rank = PMIX_RANK_WILDCARD\<rparr>\<rparr>"
  have 1: "step_rel s ?s1" by simp
  have "step_rel ?s1 (snd (
           on_success (argv_append_all env (run_arg_entries ?s1))
             (on_success
                (if mpir_mode ?s1 \<noteq> MPIR_SHIM_ATTACH_MODE then export_rendezvous_uri env
                 else (\<lambda>s2. (Returns STATUS_OK, s2)))
                (on_success
                   (if mpir_mode ?s1 = MPIR_SHIM_PROXY_MODE
                    then argv_append_all env (map Some (environ env))
                    else (\<lambda>s2. (Returns STATUS_OK, s2)))
                   (spawn_call env)))
             ?s1))"
    by (intro step_on_success)
       (simp_all add: step_argv_append_all step_export_rendezvous_uri step_spawn_call)
  with 1 have "step_rel s (snd (
           on_success (argv_append_all env (run_arg_entries ?s1))
             (on_success
                (if mpir_mode ?s1 \<noteq> MPIR_SHIM_ATTACH_MODE then export_rendezvous_uri env
                 else (\<lambda>s2. (Returns STATUS_OK, s2)))
                (on_success
                   (if mpir_mode ?s1 = MPIR_SHIM_PROXY_MODE
                    then argv_append_all env (map Some (environ env))
                    else (\<lambda>s2. (Returns STATUS_OK, s2)))
                   (spawn_call env)))
             ?s1))"
    by (rule step_rel_trans)
  with 1 show ?thesis
    unfolding spawn_launcher_and_application_def Let_def by (simp split: if_splits)
qed

lemma step_connect_to_server: "step_rel s (snd (connect_to_server env s))"
  unfolding connect_to_server_def
  by (rule step_rel_trans [OF step_field_updates(10)], rule step_on_success)
     (simp_all add: step_pmix_must_succeed)

lemma step_release_procs: "step_rel s (snd (release_procs_in_namespace env ns r s))"
  by (simp add: release_procs_in_namespace_def step_pmix_may_succeed)

lemma step_query_application_namespace: "step_rel s (snd (query_application_namespace env s))"
  unfolding query_application_namespace_def Let_def
  by (intro step_on_success step_pmix_must_succeed)
     (simp split: list.splits pmix_value_t.splits)

lemma proctable_loop_length: "proctable_loop ps t = Some t' \<Longrightarrow> length t' = length t"
proof (induction ps arbitrary: t)
  case Nil
  then show ?case by simp
next
  case (Cons p ps)
  from Cons.prems obtain t1 where 1: "store_procdesc p t = Some t1"
    and 2: "proctable_loop ps t1 = Some t'"
    by (auto split: option.splits)
  from 1 have "length t1 = length t"
    by (auto simp: store_procdesc_def Let_def split: if_splits option.splits)
  with Cons.IH [OF 2] show ?case by simp
qed

lemma materialise_proctable_shape:
  assumes "materialise_proctable recs = Some tab"
  shows "case tab of None \<Rightarrow> proctable_size_of recs < 0
         | Some t \<Rightarrow> int (length t) = proctable_size_of recs"
proof (cases "proctable_size_of recs < 0")
  case True
  with assms show ?thesis
    by (auto simp: materialise_proctable_def malloc_proctable_def Let_def)
next
  case False
  let ?n = "nat (proctable_size_of recs)"
  show ?thesis
  proof (cases "proctable_loop (take ?n recs) (replicate ?n None)")
    case None
    with False assms show ?thesis
      by (simp add: materialise_proctable_def malloc_proctable_def Let_def)
  next
    case (Some t)
    with False assms have "tab = Some t"
      by (simp add: materialise_proctable_def malloc_proctable_def Let_def)
    moreover from proctable_loop_length [OF Some] False
    have "int (length t) = proctable_size_of recs" by simp
    ultimately show ?thesis by simp
  qed
qed

lemma step_build_proctable: "step_rel s (snd (build_proctable recs s))"
proof (cases "materialise_proctable recs")
  case None
  then show ?thesis by (simp add: build_proctable_def Let_def)
next
  case (Some tab)
  from materialise_proctable_shape [OF this]
  have "effect_ok (Breakpoint_hit MPIR_DEBUG_SPAWNED tab (proctable_size_of recs))"
    by (simp add: effect_ok_def MPIR_DEBUG_SPAWNED_def MPIR_NULL_def)
  with Some show ?thesis
    by (simp add: build_proctable_def Let_def set_debug_state_def MPIR_Breakpoint_def emit_def
        step_rel_def follows_def effect_ok_def)
qed

lemma step_pmix_proc_table_to_mpir: "step_rel s (snd (pmix_proc_table_to_mpir env s))"
proof -
  let ?s0 = "snd (pmix_call env PMIx_Argv_append s)"
  let ?s1 = "snd (pmix_call env PMIx_Query_info ?s0)"
  have 0: "step_rel s ?s0" by (rule step_pmix_call)
  have 1: "step_rel s ?s1" by (rule step_rel_trans [OF 0 step_pmix_call])
  have 2: "step_rel s (snd (pmix_fatal_error env ?s1))" by (rule step_rel_trans [OF 1 step_fatal])
  have 3: "step_rel s (snd (build_proctable recs ?s1))" for recs
    by (rule step_rel_trans [OF 1 step_build_proctable])
  show ?thesis
    using 0 1 2 3
    by (auto simp add: pmix_proc_table_to_mpir_def Let_def case_prod_beta
        split: list.splits pmix_value_t.splits option.splits)
qed

lemma callback_rel_refl [simp]: "callback_rel s s"
  by (simp add: callback_rel_def)

lemma callback_rel_trans: "callback_rel s s1 \<Longrightarrow> callback_rel s1 s2 \<Longrightarrow> callback_rel s s2"
  by (auto simp: callback_rel_def)

lemma cb_emit: "quiet e \<Longrightarrow> callback_rel s (emit e s)"
  by (simp add: callback_rel_def emit_def)

lemma cb_set_flag: "callback_rel s (set_flag c v s)"
  by (cases c) (simp_all add: set_flag_def callback_rel_def)

lemma cb_post: "callback_rel s (post_condition c s)"
  unfolding post_condition_def
  by (rule callback_rel_trans [OF cb_emit cb_set_flag]) (simp add: quiet_def)

lemma cb_release_one: "callback_rel s (release_one c s)"
  using cb_post [of s c] by (simp add: release_one_def post_condition_def)

lemma cb_release: "callback_rel s (release_conditions s)"
  unfolding release_conditions_def
  by (rule callback_rel_trans [OF cb_release_one], rule callback_rel_trans [OF cb_release_one],
      rule callback_rel_trans [OF cb_release_one], rule cb_release_one)

lemma cb_cbfunc: "callback_rel s (call_cbfunc b s)"
  by (simp add: call_cbfunc_def cb_emit quiet_def)

lemma cb_field_updates [simp]:
  "callback_rel s (s\<lparr>launcher_exit_code := a\<rparr>)"
  "callback_rel s (s\<lparr>app_exit_code := a\<rparr>)"
  "callback_rel s (s\<lparr>launcher_terminated := a\<rparr>)"
  "callback_rel s (s\<lparr>app_terminated := a, launcher_terminated := b\<rparr>)"
  "callback_rel s (s\<lparr>MPIR_debug_abort_string := x\<rparr>)"
  "callback_rel s (s\<lparr>session_count := a\<rparr>)"
  "callback_rel s (s\<lparr>callback_reg_status := st\<rparr>)"
  "callback_rel s (s\<lparr>callback_reg_status := st, callback_reg_id := i\<rparr>)"
  "callback_rel s (s\<lparr>application_proc := p\<rparr>)"
  "callback_rel s (s\<lparr>pmix_initialized := a\<rparr>)"
  "callback_rel s (s\<lparr>MPIR_debug_state := a\<rparr>)"
  by (simp_all add: callback_rel_def)

lemma cb_set_debug_state: "callback_rel s (set_debug_state v s)"
  unfolding set_debug_state_def
  by (rule callback_rel_trans [OF cb_field_updates(11) cb_emit]) (simp add: quiet_def)

lemma cb_note_abort: "callback_rel s (note_abort who v s)"
proof -
  let ?s1 = "set_debug_state MPIR_DEBUG_ABORTING s"
  have A: "callback_rel s ?s1" by (rule cb_set_debug_state)
  have B: "callback_rel s (?s1\<lparr>MPIR_debug_abort_string := x\<rparr>)" for x
    by (rule callback_rel_trans [OF A]) simp
  show ?thesis
    using A B by (simp add: note_abort_def Let_def)
qed

lemma cb_lt_item: "callback_rel s (launcher_terminate_item i s)"
proof -
  have "callback_rel s (note_abort ''launcher'' v (s\<lparr>launcher_exit_code := v\<rparr>))" for v
    by (rule callback_rel_trans [OF _ cb_note_abort]) simp
  then show ?thesis by (cases i) simp_all
qed

lemma cb_at_item: "callback_rel s (application_terminate_item i s)"
proof -
  have "callback_rel s (note_abort ''application'' v (s\<lparr>app_exit_code := v\<rparr>))" for v
    by (rule callback_rel_trans [OF _ cb_note_abort]) simp
  then show ?thesis by (cases i) simp_all
qed

lemma cb_fold:
  assumes "\<And>i s. callback_rel s (f i s)"
  shows "callback_rel s (fold f info s)"
proof (induction info arbitrary: s)
  case Nil
  show ?case by simp
next
  case (Cons i info)
  have "callback_rel s (f i s)" by (rule assms)
  then show ?case
    using Cons.IH [of "f i s"] by (simp add: callback_rel_trans)
qed

lemma cb_terminate_tail:
  "callback_rel s (call_cbfunc b (release_conditions (post_condition c s)))"
  by (rule callback_rel_trans [OF cb_post], rule callback_rel_trans [OF cb_release], rule cb_cbfunc)

lemma cb_launcher_terminate: "callback_rel s (launcher_terminate_handler info b s)"
proof -
  let ?s1 = "fold launcher_terminate_item info s"
  have "callback_rel s ?s1" by (rule cb_fold) (rule cb_lt_item)
  also have "callback_rel ?s1 (?s1\<lparr>launcher_terminated := 1\<rparr>)" by simp
  finally (callback_rel_trans) show ?thesis
    unfolding launcher_terminate_handler_def Let_def
    by (rule callback_rel_trans) (rule cb_terminate_tail)
qed

lemma cb_application_terminate: "callback_rel s (application_terminate_handler info b s)"
proof -
  let ?s1 = "fold application_terminate_item info s"
  have "callback_rel s ?s1" by (rule cb_fold) (rule cb_at_item)
  also have "callback_rel ?s1 (?s1\<lparr>app_terminated := 1, launcher_terminated := 2\<rparr>)" by simp
  finally (callback_rel_trans) show ?thesis
    unfolding application_terminate_handler_def Let_def
    by (rule callback_rel_trans) (rule cb_terminate_tail)
qed

lemma cb_launcher_ready: "callback_rel s (launcher_ready_handler st b s)"
  unfolding launcher_ready_handler_def
  by (rule callback_rel_trans [OF cb_field_updates(7)], rule callback_rel_trans [OF cb_post],
      rule cb_cbfunc)

lemma cb_registration_complete: "callback_rel s (registration_complete_handler st i s)"
  unfolding registration_complete_handler_def
  by (rule callback_rel_trans [OF cb_field_updates(8)], rule cb_post)

lemma cb_default: "callback_rel s (snd (default_event_handler st b s))"
proof -
  have "callback_rel s (call_cbfunc b (s\<lparr>session_count := session_count s - 1\<rparr>))"
    by (rule callback_rel_trans [OF cb_field_updates(6)], rule cb_cbfunc)
  then show ?thesis
    by (simp add: default_event_handler_def c__exit_def cb_release cb_cbfunc)
qed

lemma cb_finalize: "callback_rel s (snd (finalize_as_tool env s))"
  by (simp add: finalize_as_tool_def pmix_call_def Let_def callback_rel_def emit_def quiet_def)

lemma cb_exit_handler: "callback_rel s (snd (exit_handler env s))"
proof -
  let ?s1 = "snd (finalize_as_tool env s)"
  have A: "callback_rel s ?s1" by (rule cb_finalize)
  have "callback_rel ?s1 (emit Proctable_freed ?s1)"
    by (simp add: cb_emit quiet_def)
  with A have B: "callback_rel s (emit Proctable_freed ?s1)" by (rule callback_rel_trans)
  show ?thesis
    using A B by (simp add: exit_handler_def Let_def split: option.splits)
qed

lemma cb_c_exit: "callback_rel s (snd (c_exit env n s))"
  using cb_exit_handler [of s env]
  by (cases "exit_handler env s"; cases "fst (exit_handler env s)") (simp_all add: c_exit_def)

lemma cb_fatal: "callback_rel s (snd (pmix_fatal_error env s))"
  unfolding pmix_fatal_error_def
  by (rule callback_rel_trans [OF cb_finalize cb_c_exit])

lemma cb_launcher_complete: "callback_rel s (snd (launcher_complete_handler env info b s))"
proof -
  have "callback_rel s (call_cbfunc b (post_condition launch_complete_cond
          (s\<lparr>application_proc := p\<rparr>)))" for p
    by (rule callback_rel_trans [OF cb_field_updates(9)], rule callback_rel_trans [OF cb_post],
        rule cb_cbfunc)
  then show ?thesis
    by (simp add: launcher_complete_handler_def Let_def cb_fatal split: option.splits)
qed

lemma cb_handle_event: "callback_rel s (snd (handle_event env e s))"
  by (cases e) (simp_all add: cb_registration_complete cb_default cb_launcher_complete
      cb_launcher_ready cb_launcher_terminate cb_application_terminate)

lemma cb_handle_events: "callback_rel s (snd (handle_events env es s))"
proof (induction es arbitrary: s)
  case Nil
  then show ?case by simp
next
  case (Cons e es)
  obtain r s1 where r: "handle_event env e s = (r, s1)" by (cases "handle_event env e s")
  then have 1: "callback_rel s s1" using cb_handle_event [of s env e] by simp
  have 2: "callback_rel s (snd (handle_events env es s1))"
    by (rule callback_rel_trans [OF 1 Cons.IH])
  show ?case
    using r 1 2 by (cases r) simp_all
qed

text \<open>
  Among callbacks that leave the trace and the table alone and keep the invariant, the
  function keeps the invariant: at the stop the state is the last one stored, SPAWNED
  or ABORTING, and the table is the one the loop left.
\<close>
lemma step_build_proctable_among:
  assumes "\<And>s. step_rel s (snd (others s))" and "\<And>s. callback_rel s (snd (others s))"
  shows "step_rel s (snd (build_proctable_among others recs s))"
proof (cases "materialise_proctable recs")
  case None
  then show ?thesis by (simp add: build_proctable_among_def Let_def)
next
  case (Some tab)
  let ?s2 = "s\<lparr>MPIR_proctable_size := proctable_size_of recs, MPIR_proctable := tab\<rparr>"
  let ?s3 = "set_debug_state MPIR_DEBUG_SPAWNED ?s2"
  obtain r s4 where r: "others ?s3 = (r, s4)" by (cases "others ?s3")
  have 2: "step_rel s ?s2" by (simp add: step_rel_def follows_def)
  have 3: "step_rel ?s2 ?s3" by (simp add: step_set_debug_state)
  have 4: "step_rel ?s3 s4" using assms(1) [of ?s3] r by simp
  have c: "callback_rel ?s3 s4" using assms(2) [of ?s3] r by simp
  have s4: "step_rel s s4" by (rule step_rel_trans [OF step_rel_trans [OF 2 3] 4])
  from 4 obtain es where es: "list_all effect_ok es"
      "MPIR_debug_state s4 = last (MPIR_debug_state ?s3 # debug_state_writes es)"
    by (auto simp: step_rel_def follows_def)
  have w: "\<forall>v\<in>set (debug_state_writes es). v = MPIR_DEBUG_SPAWNED \<or> v = MPIR_DEBUG_ABORTING"
    using es(1) by (induction es rule: debug_state_writes.induct) (auto simp: effect_ok_def)
  have d3: "MPIR_debug_state ?s3 = MPIR_DEBUG_SPAWNED"
    by (simp add: set_debug_state_def emit_def)
  have n: "MPIR_debug_state s4 \<noteq> MPIR_NULL"
  proof (cases "debug_state_writes es = []")
    case True
    with es(2) d3 show ?thesis by (simp add: MPIR_NULL_def MPIR_DEBUG_SPAWNED_def)
  next
    case False
    then have "last (debug_state_writes es) \<in> set (debug_state_writes es)" by simp
    with w have "last (debug_state_writes es) \<noteq> MPIR_NULL"
      by (auto simp: MPIR_NULL_def MPIR_DEBUG_SPAWNED_def MPIR_DEBUG_ABORTING_def)
    with False es(2) show ?thesis by simp
  qed
  from c have t: "MPIR_proctable s4 = tab" "MPIR_proctable_size s4 = proctable_size_of recs"
    by (simp_all add: callback_rel_def set_debug_state_def emit_def)
  from materialise_proctable_shape [OF Some] n t
  have "effect_ok (Breakpoint_hit (MPIR_debug_state s4) (MPIR_proctable s4) (MPIR_proctable_size s4))"
    by (simp add: effect_ok_def)
  then have "step_rel s4 (MPIR_Breakpoint s4)"
    by (simp add: MPIR_Breakpoint_def step_emit)
  with s4 have 5: "step_rel s (MPIR_Breakpoint s4)" by (rule step_rel_trans)
  show ?thesis
    using Some r s4 5 by (cases r) (simp_all add: build_proctable_among_def Let_def and_then_def)
qed

lemma step_pmix_proc_table_to_mpir_among:
  assumes "\<And>s. step_rel s (snd (others s))" and "\<And>s. callback_rel s (snd (others s))"
  shows "step_rel s (snd (pmix_proc_table_to_mpir_among others env s))"
proof -
  let ?s0 = "snd (pmix_call env PMIx_Argv_append s)"
  let ?s1 = "snd (pmix_call env PMIx_Query_info ?s0)"
  have 0: "step_rel s ?s0" by (rule step_pmix_call)
  have 1: "step_rel s ?s1" by (rule step_rel_trans [OF 0 step_pmix_call])
  have 2: "step_rel s (snd (pmix_fatal_error env ?s1))" by (rule step_rel_trans [OF 1 step_fatal])
  have 3: "step_rel s (snd (build_proctable_among others recs ?s1))" for recs
    by (rule step_rel_trans [OF 1 step_build_proctable_among]) (rule assms)+
  show ?thesis
    using 0 1 2 3
    by (auto simp add: pmix_proc_table_to_mpir_among_def Let_def case_prod_beta
        split: list.splits pmix_value_t.splits option.splits)
qed

lemma step_callbacks_before_stop: "step_rel s (snd (callbacks_before_stop env s))"
  by (simp add: callbacks_before_stop_def step_handle_events)

lemma cb_callbacks_before_stop: "callback_rel s (snd (callbacks_before_stop env s))"
  by (simp add: callbacks_before_stop_def cb_handle_events)

lemma step_proctable_in_driver:
  "step_rel s (snd (pmix_proc_table_to_mpir_among (callbacks_before_stop env) env s))"
  by (rule step_pmix_proc_table_to_mpir_among)
     (rule step_callbacks_before_stop cb_callbacks_before_stop)+

lemma run_rel_trans: "run_rel s s1 \<Longrightarrow> run_rel s1 s2 \<Longrightarrow> run_rel s s2"
  by (auto simp: run_rel_def intro: follows_trans)

lemma run_rel_refl [simp]: "run_rel s s"
  by (simp add: run_rel_def)

lemma step_rel_run: "step_rel s s' \<Longrightarrow> run_rel s s'"
  by (simp add: step_rel_def run_rel_def)

lemma follows_same:
  "trace s' = trace s \<Longrightarrow> MPIR_debug_state s' = MPIR_debug_state s \<Longrightarrow> follows s s'"
  unfolding follows_def by (intro exI [of _ "[]"]) simp

lemma run_rel_log_status [simp]: "run_rel s (log_status n st b s)"
  by (simp add: run_rel_def log_status_def follows_same)

lemma run_rel_and_then:
  assumes "\<And>s. run_rel s (snd (m s))" and "\<And>a s. run_rel s (snd (f a s))"
  shows "run_rel s (snd (and_then m f s))"
proof (cases "m s")
  case (Pair r s1)
  then have 1: "run_rel s s1" using assms(1) [of s] by simp
  have 2: "run_rel s (snd (f a s1))" for a
    by (rule run_rel_trans [OF 1 assms(2)])
  show ?thesis
    using Pair 1 2 by (cases r) (simp_all add: and_then_def)
qed

lemma run_rel_if_fail_return:
  assumes "\<And>s. run_rel s (snd (f s))" and "\<And>s. run_rel s (snd (rest s))"
  shows "run_rel s (snd (if_fail_return n f rest s))"
proof -
  have "run_rel x (snd (rest (log_status n st True x)))" for x st
    by (rule run_rel_trans [OF run_rel_log_status assms(2)])
  then show ?thesis
    unfolding if_fail_return_def
    by (intro run_rel_and_then assms(1)) simp
qed

lemma run_rel_unless_ok_return:
  assumes "\<And>s. run_rel s (snd (f s))" and "\<And>s. run_rel s (snd (rest s))"
  shows "run_rel s (snd (unless_ok_return n f rest s))"
proof -
  have "run_rel x (snd (rest (log_status n st True x)))" for x st
    by (rule run_rel_trans [OF run_rel_log_status assms(2)])
  then show ?thesis
    unfolding unless_ok_return_def
    by (intro run_rel_and_then assms(1)) simp
qed

lemma run_rel_discard_status:
  assumes "\<And>s. run_rel s (snd (f s))" and "\<And>s. run_rel s (snd (rest s))"
  shows "run_rel s (snd (discard_status n f rest s))"
proof -
  have "run_rel x (snd (rest (log_status n st False x)))" for x st
    by (rule run_rel_trans [OF run_rel_log_status assms(2)])
  then show ?thesis
    unfolding discard_status_def
    by (intro run_rel_and_then assms(1))
qed

lemmas run_rel_steps =
  step_rel_run [OF step_wait] step_rel_run [OF step_finalize]
  step_rel_run [OF step_release_procs] step_rel_run [OF step_proctable_in_driver]
  step_rel_run [OF step_register_handlers(1)] step_rel_run [OF step_register_handlers(2)]
  step_rel_run [OF step_register_handlers(3)] step_rel_run [OF step_register_handlers(4)]
  step_rel_run [OF step_register_handlers(5)] step_rel_run [OF step_spawn]
  step_rel_run [OF step_connect_to_server] step_rel_run [OF step_query_application_namespace]
  step_rel_run [OF step_setup_signal_handlers] step_rel_run [OF step_install_exit_handler]
  step_rel_run [OF step_initialize_as_tool]

lemma run_rel_shim_finish: "run_rel s (snd (shim_finish env s))"
  unfolding shim_finish_def
  by (intro run_rel_and_then run_rel_discard_status)
     (simp_all add: run_rel_steps returning_def)

lemma run_rel_shim_release_application: "run_rel s (snd (shim_release_application env s))"
  unfolding shim_release_application_def
  by (intro run_rel_if_fail_return run_rel_steps run_rel_shim_finish)

lemma run_rel_shim_debug: "run_rel s (snd (shim_debug env s))"
proof -
  have "run_rel x (snd (if_fail_return ''register_application_terminate_handler''
                    (register_application_terminate_handler env)
                    (shim_release_application env) x))" for x
    by (intro run_rel_if_fail_return run_rel_steps run_rel_shim_release_application)
  then show ?thesis
    unfolding shim_debug_def
    by (intro run_rel_if_fail_return run_rel_steps)
       (simp add: run_rel_shim_release_application)
qed

lemma run_rel_shim_handlers: "run_rel s (snd (shim_handlers env s))"
proof -
  have a: "run_rel x (snd (and_then (wait_for_condition env ready_for_debug_cond)
                        (\<lambda>u. shim_debug env) x))" for x
    by (intro run_rel_and_then run_rel_steps run_rel_shim_debug)
  have b: "run_rel x (snd (if_fail_return ''register_launcher_complete_handler''
                     (register_launcher_complete_handler env)
                     (and_then (wait_for_condition env ready_for_debug_cond)
                        (\<lambda>u. shim_debug env)) x))" for x
    by (intro run_rel_if_fail_return run_rel_steps a)
  have c: "run_rel x (snd (if_fail_return ''release_procs_in_namespace''
                  (release_procs_in_namespace env ns 0)
                  (if_fail_return ''register_launcher_complete_handler''
                     (register_launcher_complete_handler env)
                     (and_then (wait_for_condition env ready_for_debug_cond)
                        (\<lambda>u. shim_debug env))) x))" for x ns
    by (intro run_rel_if_fail_return run_rel_steps b)
  show ?thesis
    unfolding shim_handlers_def
    by (intro run_rel_if_fail_return run_rel_steps c)
qed

lemma run_rel_shim_launch: "run_rel s (snd (shim_launch env s))"
proof -
  have "run_rel x (snd (if_fail_return ''connect_to_server'' (connect_to_server env)
                    (shim_handlers env) x))" for x
    by (intro run_rel_if_fail_return run_rel_steps run_rel_shim_handlers)
  then show ?thesis
    unfolding shim_launch_def
    by (intro run_rel_if_fail_return run_rel_steps) (simp add: run_rel_shim_handlers)
qed

lemma run_rel_shim_attach: "run_rel s (snd (shim_attach env s))"
  unfolding shim_attach_def
  by (intro run_rel_if_fail_return run_rel_discard_status run_rel_steps)
     (simp_all add: run_rel_steps returning_def)

lemma run_rel_shim_setup: "run_rel s (snd (shim_setup env s))"
  unfolding shim_setup_def
  by (intro run_rel_if_fail_return run_rel_unless_ok_return run_rel_steps)
     (simp add: run_rel_shim_launch run_rel_shim_attach)

lemma follows_if_fail_return:
  assumes "\<And>s. follows s (snd (f s))" and "\<And>s. follows s (snd (rest s))"
  shows "follows s (snd (if_fail_return n f rest s))"
proof (cases "f s")
  case (Pair r s1)
  then have 1: "follows s s1" using assms(1) [of s] by simp
  have l: "follows s1 (log_status n st True s1)" for st
    by (rule follows_same) (simp_all add: log_status_def)
  have 2: "follows s (log_status n st True s1)" for st
    by (rule follows_trans [OF 1 l])
  have 3: "follows s (snd (rest (log_status n st True s1)))" for st
    by (rule follows_trans [OF 2 assms(2)])
  show ?thesis
    using Pair 1 2 3 by (cases r) (simp_all add: if_fail_return_def and_then_def)
qed

lemma follows_process_options:
  "follows s (snd (process_options m p d argc argv s))"
  by (rule follows_same) (simp_all add: process_options_def Let_def split: list.splits)

lemma follows_MPIR_Shim_common:
  "follows s (snd (MPIR_Shim_common env m p d argc argv prefix s))"
proof -
  have a: "follows x (snd (shim_setup env
                (case prefix of None \<Rightarrow> x | Some q \<Rightarrow> x\<lparr>pmix_prefix := Some q\<rparr>)))" for x
  proof -
    have "follows x (case prefix of None \<Rightarrow> x | Some q \<Rightarrow> x\<lparr>pmix_prefix := Some q\<rparr>)"
      by (rule follows_same) (simp_all split: option.splits)
    then show ?thesis
      by (rule follows_trans) (rule run_rel_shim_setup [unfolded run_rel_def, THEN conjunct1])
  qed
  have b: "follows s (s\<lparr>launcher_proc := PMIX_PROC_LOAD None PMIX_RANK_WILDCARD,
          application_proc := PMIX_PROC_LOAD None PMIX_RANK_WILDCARD\<rparr>)"
    by (rule follows_same) simp_all
  show ?thesis
    unfolding MPIR_Shim_common_def
    by (rule follows_trans [OF b], rule follows_if_fail_return)
       (rule follows_process_options, rule a)
qed

section \<open>Theorems: the exit code of the driver\<close>








lemma tracked_refl [simp]: "tracked env s s"
  by (simp add: tracked_def)

lemma refusal_refl [simp]: "\<not> refusal env s s"
  by (simp add: refusal_def)





lemma reg_status_simps [simp]:
  "callback_reg_status (emit e s) = callback_reg_status s"
  "callback_reg_status (set_flag c v s) = callback_reg_status s"
  "callback_reg_status (post_condition c s) = callback_reg_status s"
  "callback_reg_status (release_conditions s) = callback_reg_status s"
  "callback_reg_status (call_cbfunc b s) = callback_reg_status s"
  "callback_reg_status (set_debug_state v s) = callback_reg_status s"
  "callback_reg_status (note_abort who code s) = callback_reg_status s"
  by (cases c; simp add: emit_def set_flag_def post_condition_def release_conditions_def
      release_one_def call_cbfunc_def set_debug_state_def note_abort_def Let_def)+

lemma reg_status_items [simp]:
  "callback_reg_status (fold launcher_terminate_item info s) = callback_reg_status s"
  "callback_reg_status (fold application_terminate_item info s) = callback_reg_status s"
proof -
  have 1: "callback_reg_status (launcher_terminate_item i s) = callback_reg_status s" for i s
    by (cases i) simp_all
  have 2: "callback_reg_status (application_terminate_item i s) = callback_reg_status s" for i s
    by (cases i) simp_all
  show "callback_reg_status (fold launcher_terminate_item info s) = callback_reg_status s"
    by (induction info arbitrary: s) (simp_all add: 1)
  show "callback_reg_status (fold application_terminate_item info s) = callback_reg_status s"
    by (induction info arbitrary: s) (simp_all add: 2)
qed






lemma calls_so_far_in: "calls_so_far api s = calls_in api (trace s)"
  by (simp add: calls_so_far_def calls_in_def)



lemma tracked_call:
  "tracked env s (snd (pmix_call env api s))"
  "refusal env s (snd (pmix_call env api s)) = refuses api (fst (pmix_call env api s))"
  by (simp_all add: tracked_def refusal_def pmix_call_def calls_so_far_in)


lemma testedI:
  assumes "\<And>s st s1. f s = (Returns st, s1) \<Longrightarrow>
     tracked env s s1 \<and> (if refusal env s s1 \<or> X s then st = STATUS_FAIL else st = STATUS_OK)"
  shows "tested env X f"
  using assms unfolding tested_def by blast



lemma tested_may:
  assumes "api = PMIx_Spawn \<or> api = PMIx_Notify_event"
  shows "tested env (\<lambda>s. False) (pmix_may_succeed_at_once env api)"
proof (rule testedI)
  fix s st s1 assume "pmix_may_succeed_at_once env api s = (Returns st, s1)"
  then have 1: "s1 = snd (pmix_call env api s)"
    and 2: "st = (if fst (pmix_call env api s) \<noteq> PMIX_SUCCESS \<and>
                     fst (pmix_call env api s) \<noteq> PMIX_OPERATION_SUCCEEDED
                  then STATUS_FAIL else STATUS_OK)"
    by (auto simp: pmix_may_succeed_at_once_def Let_def case_prod_beta)
  show "tracked env s s1 \<and> (if refusal env s s1 \<or> False then st = STATUS_FAIL else st = STATUS_OK)"
    using assms by (auto simp add: 1 2 tracked_call refuses_def)
qed










lemma tested_release_procs: "tested env (\<lambda>s. False) (release_procs_in_namespace env ns r)"
proof -
  have "release_procs_in_namespace env ns r = pmix_may_succeed_at_once env PMIx_Notify_event"
    by (rule ext) (simp add: release_procs_in_namespace_def)
  then show ?thesis by (simp add: tested_may)
qed










lemma log_status_simps [simp]:
  "trace (log_status n st b s) = trace s"
  "callback_reg_status (log_status n st b s) = callback_reg_status s"
  "calls_so_far api (log_status n st b s) = calls_so_far api s"
  by (simp_all add: log_status_def calls_so_far_def)


























section \<open>Theorems: the debug state and the breakpoint\<close>


lemma effect_ok_hits:
  "list_all effect_ok es \<Longrightarrow>
   \<forall>(st, tab, n) \<in> set (breakpoint_hits es).
      st \<noteq> MPIR_NULL \<and> (case tab of None \<Rightarrow> n < 0 | Some t \<Rightarrow> int (length t) = n)"
  by (induction es rule: breakpoint_hits.induct) (auto simp: effect_ok_def)

lemma breakpoint_hits_append [simp]:
  "breakpoint_hits (xs @ ys) = breakpoint_hits xs @ breakpoint_hits ys"
  by (induction xs rule: breakpoint_hits.induct) simp_all




text \<open>
  C3, as the code has it. Whenever \<open>MPIR_Breakpoint\<close> is executed, in any run of
  \<open>MPIR_Shim_common\<close> from any state and whatever callbacks the PMIx threads run in the
  meantime, \<open>MPIR_debug_state\<close> is not MPIR_NULL and \<open>MPIR_proctable\<close> is non-null
  with \<open>MPIR_proctable_size\<close> slots (it is null only if \<open>malloc\<close> was given a negative
  size). The table is fully populated when the response has fewer than 2^31 records, ranks
  exactly 0, ..., N-1 and non-null names: then, among any callbacks, every stop of
  \<open>pmix_proc_table_to_mpir\<close> sees a table of N written entries.
\<close>
theorem breakpoint_state:
  "(\<exists>es. trace (snd (MPIR_Shim_common env m p d argc argv prefix s)) = trace s @ es \<and>
      (\<forall>(st, tab, n) \<in> set (breakpoint_hits es).
          st \<noteq> MPIR_NULL \<and>
          (case tab of None \<Rightarrow> n < 0 | Some t \<Rightarrow> int (length t) = n))) \<and>
   (proctable_response env s = Some recs \<and> length recs < 2 ^ 31 \<and> ranks_exact recs \<and>
    (\<forall>p\<in>set recs. strings_present p) \<longrightarrow>
      (\<exists>es. trace (snd (pmix_proc_table_to_mpir_among (handle_events env evs) env s)) =
              trace s @ es \<and>
         (\<forall>(st, tab, n) \<in> set (breakpoint_hits es).
            st \<noteq> MPIR_NULL \<and> n = int (length recs) \<and>
            (\<exists>t. tab = Some t \<and> length t = length recs \<and> None \<notin> set t))))"
proof -
  let ?s' = "snd (MPIR_Shim_common env m p d argc argv prefix s)"
  from follows_MPIR_Shim_common [of s env m p d argc argv prefix]
  obtain es where es: "trace ?s' = trace s @ es" "list_all effect_ok es"
    by (auto simp: follows_def)
  from effect_ok_hits [OF es(2)] es(1)
  have A: "\<exists>es. trace ?s' = trace s @ es \<and>
      (\<forall>(st, tab, n) \<in> set (breakpoint_hits es).
          st \<noteq> MPIR_NULL \<and>
          (case tab of None \<Rightarrow> n < 0 | Some t \<Rightarrow> int (length t) = n))"
    by blast
  have B: "\<exists>es. trace (snd (pmix_proc_table_to_mpir_among (handle_events env evs) env s)) =
              trace s @ es \<and>
         (\<forall>(st, tab, n) \<in> set (breakpoint_hits es).
            st \<noteq> MPIR_NULL \<and> n = int (length recs) \<and>
            (\<exists>t. tab = Some t \<and> length t = length recs \<and> None \<notin> set t))"
    if r: "proctable_response env s = Some recs" and l: "length recs < 2 ^ 31"
      and e: "ranks_exact recs" and p: "\<forall>p\<in>set recs. strings_present p"
  proof -
    let ?t = "fold place recs (replicate (length recs) None)"
    let ?s1 = "emit (Pmix_call PMIx_Query_info) (emit (Pmix_call PMIx_Argv_append) s)"
    let ?s3 = "set_debug_state MPIR_DEBUG_SPAWNED
      (?s1\<lparr>MPIR_proctable_size := int (length recs), MPIR_proctable := Some ?t\<rparr>)"
    from materialise_well_defined_iff [OF l] e p
    obtain t where t: "materialise_proctable recs = Some (Some t)" and full: "None \<notin> set t"
      by blast
    from e have "\<forall>p\<in>set recs. rank_index p < length recs" by (auto simp: ranks_exact_def)
    with p l have m: "materialise_proctable recs = Some (Some ?t)"
      by (simp add: materialise_proctable_eq)
    with t full have f: "None \<notin> set ?t" by simp
    obtain o4 s4 where o: "handle_events env evs ?s3 = (o4, s4)"
      by (cases "handle_events env evs ?s3")
    from cb_handle_events [of ?s3 env evs] o
    obtain qs where q: "trace s4 = trace ?s3 @ qs" "list_all quiet qs"
      and tab: "MPIR_proctable s4 = Some ?t" "MPIR_proctable_size s4 = int (length recs)"
      by (auto simp: callback_rel_def set_debug_state_def emit_def)
    have "MPIR_debug_state ?s3 \<noteq> MPIR_NULL"
      by (simp add: set_debug_state_def emit_def MPIR_DEBUG_SPAWNED_def MPIR_NULL_def)
    with step_handle_events [of ?s3 env evs] o have n: "MPIR_debug_state s4 \<noteq> MPIR_NULL"
      by (auto simp: step_rel_def dest: follows_not_null)
    have eq: "pmix_proc_table_to_mpir_among (handle_events env evs) env s =
        (case o4 of
           Returns u \<Rightarrow> (Returns 0, MPIR_Breakpoint s4)
         | Exits k \<Rightarrow> (Exits k, s4)
         | Blocks \<Rightarrow> (Blocks, s4)
         | Undefined_behaviour \<Rightarrow> (Undefined_behaviour, s4))"
      using r m l o
      by (auto simp: proctable_response_def pmix_proc_table_to_mpir_among_def pmix_call_def
          build_proctable_among_def proctable_size_small and_then_def Let_def
          split: if_splits list.splits pmix_value_t.splits option.splits outcome.splits)
    have h: "breakpoint_hits qs = []"
      using q(2) by (induction qs rule: breakpoint_hits.induct) (simp_all add: quiet_def)
    have 3: "trace ?s3 = trace s @ [Pmix_call PMIx_Argv_append, Pmix_call PMIx_Query_info,
        Debug_state_write MPIR_DEBUG_SPAWNED]"
      by (simp add: set_debug_state_def emit_def)
    show ?thesis
    proof (cases o4)
      case (Returns u)
      with eq q(1) 3 have "trace (snd (pmix_proc_table_to_mpir_among (handle_events env evs) env s)) =
          trace s @ ([Pmix_call PMIx_Argv_append, Pmix_call PMIx_Query_info,
            Debug_state_write MPIR_DEBUG_SPAWNED] @ qs @
            [Breakpoint_hit (MPIR_debug_state s4) (MPIR_proctable s4) (MPIR_proctable_size s4)])"
        by (simp add: MPIR_Breakpoint_def)
      moreover have "\<forall>(st, tab, n) \<in> set (breakpoint_hits
            ([Pmix_call PMIx_Argv_append, Pmix_call PMIx_Query_info,
              Debug_state_write MPIR_DEBUG_SPAWNED] @ qs @
             [Breakpoint_hit (MPIR_debug_state s4) (MPIR_proctable s4) (MPIR_proctable_size s4)])).
          st \<noteq> MPIR_NULL \<and> n = int (length recs) \<and>
          (\<exists>t. tab = Some t \<and> length t = length recs \<and> None \<notin> set t)"
        using h n tab f by simp
      ultimately show ?thesis by blast
    next
      case (Exits k)
      with eq q(1) 3 h show ?thesis
        by (intro exI [of _ "[Pmix_call PMIx_Argv_append, Pmix_call PMIx_Query_info,
            Debug_state_write MPIR_DEBUG_SPAWNED] @ qs"]) simp
    next
      case Blocks
      with eq q(1) 3 h show ?thesis
        by (intro exI [of _ "[Pmix_call PMIx_Argv_append, Pmix_call PMIx_Query_info,
            Debug_state_write MPIR_DEBUG_SPAWNED] @ qs"]) simp
    next
      case Undefined_behaviour
      with eq q(1) 3 h show ?thesis
        by (intro exI [of _ "[Pmix_call PMIx_Argv_append, Pmix_call PMIx_Query_info,
            Debug_state_write MPIR_DEBUG_SPAWNED] @ qs"]) simp
    qed
  qed
  from A B show ?thesis by blast
qed

text \<open>
  Two stops of C3 at which the launcher's termination with code 42 is handled between the
  store of SPAWNED and the stop, so that the debugger reads ABORTING: in a whole launch,
  and in \<open>pmix_proc_table_to_mpir\<close> on a response of ranks 1, 0. The table has its two
  entries in rank order.
\<close>
theorem breakpoint_state_witness:
  "breakpoint_hits (trace (snd (MPIR_Shim_common env_abort_at_stop MPIR_SHIM_DYNAMIC_PROXY_MODE
      0 0 2 [''mpirun'', ''./bad''] None initial_state))) =
     [(MPIR_DEBUG_ABORTING,
       Some [Some \<lparr>host_name = Some ''node0'', executable_name = Some ''a.out'', pid = 100\<rparr>,
             Some \<lparr>host_name = Some ''node0'', executable_name = Some ''a.out'', pid = 101\<rparr>],
       2)] \<and>
   (\<exists>t. breakpoint_hits (trace (snd (pmix_proc_table_to_mpir_among
           (handle_events (env_proctable [proc_record 1 101, proc_record 0 100])
              [Launcher_terminate [Info_exit_code 42] True])
           (env_proctable [proc_record 1 101, proc_record 0 100]) initial_state))) =
         [(MPIR_DEBUG_ABORTING, Some t, 2)] \<and> length t = 2 \<and> None \<notin> set t)"
proof -
  let ?recs = "[proc_record 1 101, proc_record 0 100]"
  let ?evs = "[Launcher_terminate [Info_exit_code 42] True]"
  let ?r = "pmix_proc_table_to_mpir_among (handle_events (env_proctable ?recs) ?evs)
      (env_proctable ?recs) initial_state"
  have 1: "proctable_response (env_proctable ?recs) initial_state = Some ?recs"
    by (simp add: proctable_response_def env_proctable_def env_all_ok_def)
  have 2: "length ?recs < 2 ^ 31" by simp
  have 3: "ranks_exact ?recs"
    by (auto simp: ranks_exact_def rank_index_def proc_record_def)
  have 4: "\<forall>p\<in>set ?recs. strings_present p"
    by (simp add: strings_present_def proc_record_def)
  have 5: "trace initial_state = []"
    by (simp add: initial_state_def)
  have 6: "breakpoint_hits (trace (snd (MPIR_Shim_common env_abort_at_stop
      MPIR_SHIM_DYNAMIC_PROXY_MODE 0 0 2 [''mpirun'', ''./bad''] None initial_state))) =
     [(MPIR_DEBUG_ABORTING,
       Some [Some \<lparr>host_name = Some ''node0'', executable_name = Some ''a.out'', pid = 100\<rparr>,
             Some \<lparr>host_name = Some ''node0'', executable_name = Some ''a.out'', pid = 101\<rparr>],
       2)]"
    by code_simp
  have 7: "map (\<lambda>(st, tab, n). (st, n)) (breakpoint_hits (trace (snd ?r))) =
      [(MPIR_DEBUG_ABORTING, 2)]"
    by code_simp
  then obtain tab where tab: "breakpoint_hits (trace (snd ?r)) = [(MPIR_DEBUG_ABORTING, tab, 2)]"
    by (cases "breakpoint_hits (trace (snd ?r))") auto
  from breakpoint_state [where env = "env_proctable ?recs" and s = initial_state and recs = ?recs
      and evs = ?evs and m = MPIR_SHIM_ATTACH_MODE and p = 0 and d = 0 and argc = 0
      and argv = "[]" and prefix = None] 1 2 3 4
  obtain es where es: "trace (snd ?r) = trace initial_state @ es"
    and all: "\<forall>(st, tab, n) \<in> set (breakpoint_hits es).
            st \<noteq> MPIR_NULL \<and> n = int (length ?recs) \<and>
            (\<exists>t. tab = Some t \<and> length t = length ?recs \<and> None \<notin> set t)"
    by blast
  from es 5 tab have "breakpoint_hits es = [(MPIR_DEBUG_ABORTING, tab, 2)]" by simp
  with all obtain t where "tab = Some t" "length t = 2" "None \<notin> set t" by auto
  with tab have "\<exists>t. breakpoint_hits (trace (snd ?r)) = [(MPIR_DEBUG_ABORTING, Some t, 2)] \<and>
      length t = 2 \<and> None \<notin> set t"
    by simp
  with 6 show ?thesis by blast
qed

lemma proctable_size_of_wraps: "proctable_size_of (replicate 2147483648 r) = - 2147483648"
proof -
  have "(word_of_nat (2 ^ 31) :: 32 word) = 2 ^ 31" by simp
  moreover have "sint (2 ^ 31 :: 32 word) = - (2 ^ 31)" by simp
  ultimately have "proctable_size_of (replicate (2 ^ 31) r) = - (2 ^ 31)"
    by (simp add: proctable_size_of_def)
  then show ?thesis by simp
qed

text \<open>
  C3 as stated fails in its table part. For a response whose ranks are not 0, ..., N-1,
  here two records of rank 0, the breakpoint is reached with a table of size 2 whose
  entry 1 was never written. And for a response of 2^31 records the size wraps to
  -2^31 as an \<open>int\<close>, \<open>malloc\<close> returns a null pointer, the loop does not run, and the
  breakpoint is reached with a null \<open>MPIR_proctable\<close>.
\<close>
theorem breakpoint_with_unwritten_entry:
  "breakpoint_hits (trace (snd (pmix_proc_table_to_mpir
      (env_proctable [proc_record 0 10, proc_record 0 20]) initial_state))) =
     [(MPIR_DEBUG_SPAWNED,
       Some [Some \<lparr>host_name = Some ''node0'', executable_name = Some ''a.out'', pid = 20\<rparr>,
             None],
       2)] \<and>
   breakpoint_hits (trace (snd (pmix_proc_table_to_mpir
      (env_proctable (replicate (2 ^ 31) (proc_record 0 0))) initial_state))) =
     [(MPIR_DEBUG_SPAWNED, None, - (2 ^ 31))]"
proof -
  have "breakpoint_hits (trace (snd (pmix_proc_table_to_mpir
      (env_proctable [proc_record 0 10, proc_record 0 20]) initial_state))) =
     [(MPIR_DEBUG_SPAWNED,
       Some [Some \<lparr>host_name = Some ''node0'', executable_name = Some ''a.out'', pid = 20\<rparr>,
             None],
       2)]"
    by code_simp
  moreover have "breakpoint_hits (trace (snd (pmix_proc_table_to_mpir
      (env_proctable (replicate (2 ^ 31) (proc_record 0 0))) initial_state))) =
     [(MPIR_DEBUG_SPAWNED, None, - (2 ^ 31))]"
    by (simp add: pmix_proc_table_to_mpir_def pmix_call_def env_proctable_def env_all_ok_def
        initial_state_def calls_so_far_def emit_def build_proctable_def
        materialise_proctable_def malloc_proctable_def proctable_size_of_wraps Let_def
        set_debug_state_def MPIR_Breakpoint_def)
  ultimately show ?thesis by (rule conjI)
qed

end
